theory Spec2Isabelle
  imports Complex_Main
begin

section \<open>The localization stage of the traffic manager\<close>

text \<open>
  A shallow embedding of \<^verbatim>\<open>LocalizationStage\<close> (\<^verbatim>\<open>Update\<close>, \<^verbatim>\<open>RemoveActor\<close>,
  \<^verbatim>\<open>Reset\<close>, \<^verbatim>\<open>AssignLaneChange\<close>).

  \<^item> A \<^verbatim>\<open>SimpleWaypointPtr\<close> is a \<open>wp option\<close>: \<open>None\<close> is \<^verbatim>\<open>nullptr\<close>, \<open>Some w\<close>
    points to the waypoint with handle \<open>w\<close>.
  \<^item> A \<^verbatim>\<open>Buffer\<close> (a deque of waypoint pointers) is a list, front first.
  \<^item> \<^verbatim>\<open>float\<close> and \<^verbatim>\<open>double\<close> scalars are the real numbers they stand for (no NaN, no
    infinity); where the source computes with the speed of the vehicle, the rounding of
    the result to \<^verbatim>\<open>float\<close> is written out (\<open>to_float\<close>, a parameter of the environment).
  \<^item> An exception (\<^verbatim>\<open>at\<close> out of range) and undefined behaviour (null dereference,
    \<^verbatim>\<open>front()\<close>, \<^verbatim>\<open>back()\<close> or \<^verbatim>\<open>[0]\<close> on an empty container) are values of \<open>error\<close>;
    a fallible computation returns \<open>error + 'a\<close> with \<open>Inl\<close> the error.
  \<^item> A loop that may run forever is a \<^theory_text>\<open>partial_function (option)\<close>: \<open>None\<close> means
    that the loop does not return.
\<close>

subsection \<open>Data\<close>

type_synonym ActorId = nat
type_synonym wp = nat
type_synonym vec = "real \<times> real \<times> real"
type_synonym Buffer = "wp list"

datatype error = OutOfRange | NullPointer | EmptyContainer

record LocalizationData =
  is_at_junction_entrance :: bool
  junction_end_point :: "wp option"
  safe_point :: "wp option"

text \<open>
  \<^verbatim>\<open>TrackTraffic\<close>: the cell-membership sets (which actors pass through a waypoint) and
  the overlap sets, the latter as lists in the iteration order of the set.
\<close>

record TrackTraffic =
  waypoint_occupied :: "wp \<Rightarrow> ActorId set"
  overlapping_vehicles :: "ActorId \<Rightarrow> ActorId list"

text \<open>
  The mutable members of the stage and the structures it holds references to.
  \<open>rand_pos\<close> counts the calls of \<^verbatim>\<open>rand()\<close> made so far.
\<close>

record stage =
  buffer_map :: "ActorId \<rightharpoonup> Buffer"
  track_traffic :: TrackTraffic
  last_lane_change_location :: "ActorId \<rightharpoonup> vec"
  vehicles_at_junction :: "ActorId set"
  output_array :: "LocalizationData list"
  rand_pos :: nat

subsection \<open>The environment of the stage\<close>

text \<open>
  Everything the stage reads and never writes: the actor list, the simulation state, the
  parameters, the local map, the waypoints, the random source (\<open>rand n\<close> is the value of
  the \<open>n\<close>-th call of \<^verbatim>\<open>rand()\<close>) and the constants of \<^verbatim>\<open>Constants.h\<close>. The header
  with the constants and the helpers \<^verbatim>\<open>GetTargetWaypoint\<close>, \<^verbatim>\<open>DeviationDotProduct\<close>
  and \<^verbatim>\<open>TrackTraffic::UpdateGridPosition\<close> are not among the sources: they are
  parameters here, so that every result holds for each value they may have.
  \<open>WpDistanceSquared w a b\<close> is \<^verbatim>\<open>a->DistanceSquared(b)\<close>; the handle of a waypoint
  is also its \<^verbatim>\<open>GetId()\<close>.

  The scalars of the stage are \<^verbatim>\<open>float\<close> values, and a sum or a product of two of them
  is the exact result rounded to \<^verbatim>\<open>float\<close>. \<open>to_float w r\<close> is the \<^verbatim>\<open>float\<close> that the real
  number \<open>r\<close> is rounded to. The rounding is a parameter too: no result depends on how
  it rounds. It is applied where the source computes with the speed of the vehicle: the
  horizon (lines 35-36), the distance between lane changes (line 113) and the change-over
  distance (lines 399 and 401).
\<close>

record env =
  vehicle_id_list :: "ActorId list"
  GetLocation :: "ActorId \<Rightarrow> vec"
  GetHeading :: "ActorId \<Rightarrow> vec"
  GetVelocity :: "ActorId \<Rightarrow> vec"
  GetForceLaneChange :: "ActorId \<Rightarrow> bool \<times> bool"
  GetKeepRightPercentage :: "ActorId \<Rightarrow> real"
  GetAutoLaneChange :: "ActorId \<Rightarrow> bool"
  GetWaypointInVicinity :: "vec \<Rightarrow> wp option"
  GetWaypoint :: "vec \<Rightarrow> wp"
  GetNextWaypoint :: "wp \<Rightarrow> wp option list"
  GetLeftWaypoint :: "wp \<Rightarrow> wp option"
  GetRightWaypoint :: "wp \<Rightarrow> wp option"
  CheckJunction :: "wp \<Rightarrow> bool"
  WpDistanceSquared :: "wp \<Rightarrow> wp \<Rightarrow> real"
  WpLocation :: "wp \<Rightarrow> vec"
  GetForwardVector :: "wp \<Rightarrow> vec"
  GetRoadId :: "wp \<Rightarrow> int"
  GetLaneId :: "wp \<Rightarrow> int"
  GetTargetWaypoint :: "Buffer \<Rightarrow> real \<Rightarrow> wp option"
  DeviationDotProduct :: "vec \<Rightarrow> vec \<Rightarrow> vec \<Rightarrow> real"
  UpdateGridPosition :: "ActorId \<Rightarrow> Buffer \<Rightarrow> TrackTraffic \<Rightarrow> TrackTraffic"
  rand :: "nat \<Rightarrow> nat"
  to_float :: "real \<Rightarrow> real"
  HORIZON_RATE :: real
  MINIMUM_HORIZON_LENGTH :: real
  MAXIMUM_HORIZON_LENGTH :: real
  MAX_START_DISTANCE :: real
  JUNCTION_LOOK_AHEAD :: real
  INTER_LANE_CHANGE_DISTANCE :: real
  SAFE_DISTANCE_AFTER_JUNCTION :: real
  MAXIMUM_LANE_OBSTACLE_CURVATURE :: real
  MINIMUM_LANE_CHANGE_DISTANCE :: real
  MAXIMUM_LANE_OBSTACLE_DISTANCE :: real

subsection \<open>Geometry\<close>

text \<open>
  Modelled from the spec: the macros \<^verbatim>\<open>SQUARE\<close>, \<^verbatim>\<open>MIN\<close> and \<^verbatim>\<open>MAX\<close> are not among
  the sources. \<open>SQUARE\<close> is the square; \<^verbatim>\<open>MIN\<close> and \<^verbatim>\<open>MAX\<close> are \<open>min\<close> and \<open>max\<close>.
\<close>

definition SQUARE :: "real \<Rightarrow> real" where
  "SQUARE a = a * a"

text \<open>
  Modelled from the spec: \<^verbatim>\<open>cg::Math::DistanceSquared\<close> is not among the sources. It is
  the squared distance of two locations.
\<close>

fun DistanceSquared :: "vec \<Rightarrow> vec \<Rightarrow> real" where
  "DistanceSquared (ax, ay, az) (bx, by, bz) =
     SQUARE (bx - ax) + SQUARE (by - ay) + SQUARE (bz - az)"

text \<open>
  Modelled from the spec: \<^verbatim>\<open>cg::Math::Dot\<close> is not among the sources. It is the scalar
  product.
\<close>

fun Dot :: "vec \<Rightarrow> vec \<Rightarrow> real" where
  "Dot (ax, ay, az) (bx, by, bz) = ax * bx + ay * by + az * bz"

text \<open>
  Modelled from the spec: the difference of two locations (\<^verbatim>\<open>operator-\<close>) is not among
  the sources. It is taken by components.
\<close>

fun vec_minus :: "vec \<Rightarrow> vec \<Rightarrow> vec" where
  "vec_minus (ax, ay, az) (bx, by, bz) = (ax - bx, ay - by, az - bz)"

text \<open>
  Modelled from the spec: \<^verbatim>\<open>cg::Vector3D::Length\<close> is not among the sources. It is the
  norm of the vector, the speed for a velocity.
\<close>

fun Length :: "vec \<Rightarrow> real" where
  "Length (x, y, z) = sqrt (x * x + y * y + z * z)"

text \<open>
  Modelled from the spec: \<^verbatim>\<open>cg::Math::Clamp\<close> is not among the sources. It limits a value
  to the range from \<open>lo\<close> to \<open>hi\<close>.
\<close>

definition Clamp :: "real \<Rightarrow> real \<Rightarrow> real \<Rightarrow> real" where
  "Clamp a lo hi = min (max a lo) hi"

subsection \<open>The registry, PushWaypoint and PopWaypoint\<close>

text \<open>
  Modelled from the spec: \<^verbatim>\<open>TrackTraffic::UpdatePassingVehicle\<close> is not among the sources.
  It adds the actor to the cell of the waypoint.
\<close>

definition UpdatePassingVehicle :: "wp \<Rightarrow> ActorId \<Rightarrow> TrackTraffic \<Rightarrow> TrackTraffic" where
  "UpdatePassingVehicle waypoint_id actor_id tt =
     tt\<lparr>waypoint_occupied :=
          (waypoint_occupied tt)(waypoint_id := insert actor_id (waypoint_occupied tt waypoint_id))\<rparr>"

text \<open>
  Modelled from the spec: \<^verbatim>\<open>TrackTraffic::RemovePassingVehicle\<close> is not among the sources.
  It removes the actor from the cell of the waypoint.
\<close>

definition RemovePassingVehicle :: "wp \<Rightarrow> ActorId \<Rightarrow> TrackTraffic \<Rightarrow> TrackTraffic" where
  "RemovePassingVehicle waypoint_id actor_id tt =
     tt\<lparr>waypoint_occupied :=
          (waypoint_occupied tt)(waypoint_id := waypoint_occupied tt waypoint_id - {actor_id})\<rparr>"

text \<open>
  Modelled from the spec: \<^verbatim>\<open>TrackTraffic::GetPassingVehicles\<close> is not among the sources.
  It is a query: the actors in the cell of the waypoint.
\<close>

definition GetPassingVehicles :: "TrackTraffic \<Rightarrow> wp \<Rightarrow> ActorId set" where
  "GetPassingVehicles tt waypoint_id = waypoint_occupied tt waypoint_id"

text \<open>
  Modelled from the spec: \<^verbatim>\<open>TrackTraffic::GetOverlappingVehicles\<close> is not among the
  sources. It is a query: the overlap set of the actor.
\<close>

definition GetOverlappingVehicles :: "TrackTraffic \<Rightarrow> ActorId \<Rightarrow> ActorId list" where
  "GetOverlappingVehicles tt actor_id = overlapping_vehicles tt actor_id"

text \<open>
  Modelled from the spec: \<^verbatim>\<open>PushWaypoint\<close> is not among the sources. Following the spec,
  it appends the waypoint to the back of the buffer and adds the actor to the cell of that
  waypoint. The cell is derived from the waypoint's identity, so pushing a null pointer is
  a null dereference. It works on the buffer and the registry it is handed by reference.
\<close>

definition PushWaypoint ::
  "ActorId \<Rightarrow> Buffer \<times> TrackTraffic \<Rightarrow> wp option \<Rightarrow> error + Buffer \<times> TrackTraffic" where
  "PushWaypoint actor_id bt waypoint =
     (case waypoint of
        None \<Rightarrow> Inl NullPointer
      | Some x \<Rightarrow> Inr (fst bt @ [x], UpdatePassingVehicle x actor_id (snd bt)))"

text \<open>
  Modelled from the spec: \<^verbatim>\<open>PopWaypoint\<close> is not among the sources. Following the spec, it
  removes the front waypoint (or, with the flag false, the back waypoint) and removes the
  actor from the cell of that waypoint. Popping from an empty buffer reads an element that
  is not there.
\<close>

definition PopWaypoint ::
  "ActorId \<Rightarrow> Buffer \<times> TrackTraffic \<Rightarrow> bool \<Rightarrow> error + Buffer \<times> TrackTraffic" where
  "PopWaypoint actor_id bt front_or_back =
     (if fst bt = [] then Inl EmptyContainer
      else if front_or_back
      then Inr (tl (fst bt), RemovePassingVehicle (hd (fst bt)) actor_id (snd bt))
      else Inr (butlast (fst bt), RemovePassingVehicle (last (fst bt)) actor_id (snd bt)))"

subsection \<open>AssignLaneChange\<close>

text \<open>
  \<^verbatim>\<open>AssignLaneChange\<close> (lines 271-410): \<open>scan_blocking\<close> is the loop over the blocking
  vehicles (295-342) with the test \<open>is_lane_obstacle\<close> (318-323), \<open>choose_free_side\<close> the
  branch for an obstacle found (345-384), \<open>choose_forced_side\<close> the forced branch (385-395)
  and \<open>advance_change_over\<close> the projection of the change-over point (397-406).
\<close>

text \<open>
  The locals of the loop over the blocking vehicles. \<open>minimum_squared_distance\<close> starts at
  infinity, which is \<open>None\<close> here.
\<close>

record obstacle_scan =
  obstacle_too_close :: bool
  minimum_squared_distance :: "real option"
  obstacle_actor_id :: ActorId

definition is_lane_obstacle :: "env \<Rightarrow> wp \<Rightarrow> wp \<Rightarrow> bool" where
  "is_lane_obstacle w current_waypoint other_current_waypoint =
     (let reference_heading = GetForwardVector w current_waypoint;
          reference_to_other = vec_minus (WpLocation w other_current_waypoint)
                                         (WpLocation w current_waypoint);
          other_heading = GetForwardVector w other_current_waypoint
      in \<not> CheckJunction w current_waypoint
         \<and> \<not> CheckJunction w other_current_waypoint
         \<and> GetRoadId w other_current_waypoint = GetRoadId w current_waypoint
         \<and> GetLaneId w other_current_waypoint = GetLaneId w current_waypoint
         \<and> Dot reference_heading reference_to_other > 0
         \<and> Dot reference_heading other_heading > MAXIMUM_LANE_OBSTACLE_CURVATURE w)"

fun scan_blocking ::
  "env \<Rightarrow> stage \<Rightarrow> wp \<Rightarrow> vec \<Rightarrow> bool \<Rightarrow> ActorId list \<Rightarrow> obstacle_scan \<Rightarrow> obstacle_scan" where
  "scan_blocking w s current_waypoint vehicle_location force [] st = st"
| "scan_blocking w s current_waypoint vehicle_location force (other_actor_id # rest) st =
     (if obstacle_too_close st \<or> force then st
      else scan_blocking w s current_waypoint vehicle_location force rest
        (case buffer_map s other_actor_id of
           Some (other_current_waypoint # _) \<Rightarrow>
             (if is_lane_obstacle w current_waypoint other_current_waypoint
              then (let squared_distance =
                          DistanceSquared vehicle_location (WpLocation w other_current_waypoint)
                    in if squared_distance > SQUARE (MINIMUM_LANE_CHANGE_DISTANCE w)
                       then (if (case minimum_squared_distance st of
                                   None \<Rightarrow> True | Some m \<Rightarrow> squared_distance < m)
                                \<and> squared_distance < SQUARE (MAXIMUM_LANE_OBSTACLE_DISTANCE w)
                             then st\<lparr>minimum_squared_distance := Some squared_distance,
                                     obstacle_actor_id := other_actor_id\<rparr>
                             else st)
                       else st\<lparr>obstacle_too_close := True\<rparr>)
              else st)
         | _ \<Rightarrow> st))"

text \<open>
  The choice of the side once an obstacle has been found (the branch for a valid immediate
  obstacle). \<^verbatim>\<open>buffer_map->at\<close> throws for an absent actor.
\<close>

definition lane_free :: "TrackTraffic \<Rightarrow> wp option \<Rightarrow> bool" where
  "lane_free tt candidate_lane_wp =
     (case candidate_lane_wp of None \<Rightarrow> False | Some c \<Rightarrow> GetPassingVehicles tt c = {})"

definition choose_free_side ::
  "env \<Rightarrow> stage \<Rightarrow> ActorId \<Rightarrow> wp option \<Rightarrow> wp option \<Rightarrow> error + wp option" where
  "choose_free_side w s obstacle left_waypoint right_waypoint =
     (case buffer_map s obstacle of
        None \<Rightarrow> Inl OutOfRange
      | Some [] \<Rightarrow> Inl EmptyContainer
      | Some (other_current_waypoint # _) \<Rightarrow>
          (let distant_left_lane_free =
                 lane_free (track_traffic s) (GetLeftWaypoint w other_current_waypoint);
               distant_right_lane_free =
                 lane_free (track_traffic s) (GetRightWaypoint w other_current_waypoint)
           in if distant_right_lane_free \<and> lane_free (track_traffic s) right_waypoint
              then Inr right_waypoint
              else if distant_left_lane_free \<and> lane_free (track_traffic s) left_waypoint
              then Inr left_waypoint
              else Inr None))"

definition choose_forced_side :: "bool \<Rightarrow> wp option \<Rightarrow> wp option \<Rightarrow> wp option" where
  "choose_forced_side direction left_waypoint right_waypoint =
     (if direction \<and> right_waypoint \<noteq> None then right_waypoint
      else if \<not> direction \<and> left_waypoint \<noteq> None then left_waypoint
      else None)"

text \<open>
  The change-over distance of line 399: the \<^verbatim>\<open>float\<close> product of 1.5 and the speed,
  clamped.
\<close>

definition change_over_dist :: "env \<Rightarrow> real \<Rightarrow> real" where
  "change_over_dist w vehicle_speed = Clamp (to_float w (1.5 * vehicle_speed)) 3 20"

text \<open>
  The projection of the change-over point: the last loop of the function. Its bound is
  the \<^verbatim>\<open>float\<close> square of the change-over distance. It reads
  element 0 of the successors without a check of their number, and in the next test of
  its condition it follows that pointer without a comparison with null.
\<close>

partial_function (option) advance_change_over ::
  "env \<Rightarrow> wp \<Rightarrow> real \<Rightarrow> wp \<Rightarrow> (error + wp option) option" where
  "advance_change_over w starting_point change_over_distance change_over_point =
     (if WpDistanceSquared w change_over_point starting_point
           < to_float w (SQUARE change_over_distance)
         \<and> \<not> CheckJunction w change_over_point
      then (if GetNextWaypoint w change_over_point = [] then Some (Inl EmptyContainer)
            else case hd (GetNextWaypoint w change_over_point) of
                   None \<Rightarrow> Some (Inl NullPointer)
                 | Some n \<Rightarrow> advance_change_over w starting_point change_over_distance n)
      else Some (Inr (Some change_over_point)))"

definition AssignLaneChange ::
  "env \<Rightarrow> stage \<Rightarrow> ActorId \<Rightarrow> vec \<Rightarrow> real \<Rightarrow> bool \<Rightarrow> bool \<Rightarrow> (error + wp option \<times> stage) option" where
  "AssignLaneChange w s actor_id vehicle_location vehicle_speed force direction =
     (case buffer_map s actor_id of
        None \<Rightarrow> Some (Inl OutOfRange)
      | Some [] \<Rightarrow> Some (Inr (None, s))
      | Some (current_waypoint # _) \<Rightarrow>
          (let left_waypoint = GetLeftWaypoint w current_waypoint;
               right_waypoint = GetRightWaypoint w current_waypoint;
               blocking_vehicles = GetOverlappingVehicles (track_traffic s) actor_id;
               st = scan_blocking w s current_waypoint vehicle_location force blocking_vehicles
                      \<lparr>obstacle_too_close = False, minimum_squared_distance = None,
                       obstacle_actor_id = 0\<rparr>;
               chosen = (if \<not> obstacle_too_close st \<and> obstacle_actor_id st \<noteq> 0 \<and> \<not> force
                         then choose_free_side w s (obstacle_actor_id st)
                                left_waypoint right_waypoint
                         else if force
                         then Inr (choose_forced_side direction left_waypoint right_waypoint)
                         else Inr None)
           in case chosen of
                Inl e \<Rightarrow> Some (Inl e)
              | Inr None \<Rightarrow> Some (Inr (None, s))
              | Inr (Some starting_point) \<Rightarrow>
                  (case advance_change_over w starting_point
                          (change_over_dist w vehicle_speed) starting_point of
                     None \<Rightarrow> None
                   | Some (Inl e) \<Rightarrow> Some (Inl e)
                   | Some (Inr change_over_point) \<Rightarrow> Some (Inr (change_over_point, s)))))"

subsection \<open>Update: the buffer before the lane change\<close>

text \<open>
  \<^verbatim>\<open>Update\<close> is modelled phase by phase, in the order of the source. The helpers that
  take the buffer and the registry by reference work on the pair of the two. The phases
  and the lines of the source they stand for:
  \<^item> \<open>horizon_square\<close>: lines 32-36; \<open>clear_stale\<close> with \<open>pop_times\<close>: lines 45-56;
  \<^item> \<open>purge_buffer\<close>: lines 58-84, with \<open>purge_passed\<close> (63-72), \<open>junction_entrance\<close>
    (74-75) and \<open>purge_far\<close> (78-83);
  \<^item> \<open>seed_buffer\<close>: lines 86-95; \<open>prepare_buffer\<close>: lines 45-95 together;
  \<^item> \<open>lane_change_phase\<close>: lines 97-140, with \<open>lane_change_request\<close> (98-110) and
    \<open>replace_buffer\<close> (125-138);
  \<^item> \<open>populate\<close>: lines 142-166, with \<open>select_next\<close> (146-164);
  \<^item> \<open>junction_phase\<close>: lines 168-247, with \<open>scan_buffer\<close> (183-200),
    \<open>extend_past_junction\<close> (203-232), \<open>leave_junction\<close> (205-214),
    \<open>find_safe_point\<close> (216-231) and \<open>write_output\<close> (234-237, 243-246);
  \<^item> \<open>Update\<close>: lines 26-251, the phases in sequence.
\<close>

definition horizon_square :: "env \<Rightarrow> ActorId \<Rightarrow> real" where
  "horizon_square w actor_id =
     (let vehicle_speed = Length (GetVelocity w actor_id);
          horizon_length =
            min (to_float w (to_float w (vehicle_speed * HORIZON_RATE w)
                             + MINIMUM_HORIZON_LENGTH w))
                (MAXIMUM_HORIZON_LENGTH w)
      in to_float w (SQUARE horizon_length))"

text \<open>The loops that pop \<^verbatim>\<open>number_of_pops\<close> waypoints from the front.\<close>

fun pop_times :: "nat \<Rightarrow> ActorId \<Rightarrow> Buffer \<times> TrackTraffic \<Rightarrow> error + Buffer \<times> TrackTraffic" where
  "pop_times 0 actor_id bt = Inr bt"
| "pop_times (Suc j) actor_id bt =
     (case PopWaypoint actor_id bt True of
        Inl e \<Rightarrow> Inl e
      | Inr bt' \<Rightarrow> pop_times j actor_id bt')"

definition clear_stale ::
  "env \<Rightarrow> ActorId \<Rightarrow> vec \<Rightarrow> Buffer \<times> TrackTraffic \<Rightarrow> error + Buffer \<times> TrackTraffic" where
  "clear_stale w actor_id vehicle_location bt =
     (if fst bt \<noteq> []
         \<and> DistanceSquared (WpLocation w (hd (fst bt))) vehicle_location
             > SQUARE (MAX_START_DISTANCE w)
      then pop_times (length (fst bt)) actor_id bt
      else Inr bt)"

text \<open>Purging the waypoints the vehicle has passed: each pop shortens the buffer.\<close>

function purge_passed ::
  "env \<Rightarrow> ActorId \<Rightarrow> vec \<Rightarrow> vec \<Rightarrow> real \<Rightarrow> Buffer \<times> TrackTraffic \<Rightarrow> error + Buffer \<times> TrackTraffic" where
  "purge_passed w actor_id vehicle_location heading_vector dot_product bt =
     (if dot_product \<le> 0 \<and> fst bt \<noteq> []
      then (case PopWaypoint actor_id bt True of
              Inl e \<Rightarrow> Inl e
            | Inr bt' \<Rightarrow>
                purge_passed w actor_id vehicle_location heading_vector
                  (if fst bt' \<noteq> []
                   then DeviationDotProduct w vehicle_location heading_vector
                          (WpLocation w (hd (fst bt')))
                   else dot_product)
                  bt')
      else Inr bt)"
  by pat_completeness auto
termination
  by (relation "measure (\<lambda>(w, a, l, h, d, bt). length (fst bt))")
     (auto simp: PopWaypoint_def split: if_splits)

declare purge_passed.simps [simp del]

text \<open>Purging the waypoints too far from the front of the buffer, from the back.\<close>

function purge_far ::
  "env \<Rightarrow> ActorId \<Rightarrow> bool \<Rightarrow> real \<Rightarrow> Buffer \<times> TrackTraffic \<Rightarrow> error + Buffer \<times> TrackTraffic" where
  "purge_far w actor_id is_at_junction horizon_sq bt =
     (if \<not> is_at_junction \<and> fst bt \<noteq> []
         \<and> WpDistanceSquared w (last (fst bt)) (hd (fst bt)) > horizon_sq
      then (case PopWaypoint actor_id bt False of
              Inl e \<Rightarrow> Inl e
            | Inr bt' \<Rightarrow> purge_far w actor_id is_at_junction horizon_sq bt')
      else Inr bt)"
  by pat_completeness auto
termination
  by (relation "measure (\<lambda>(w, a, j, h, bt). length (fst bt))")
     (auto simp: PopWaypoint_def split: if_splits)

declare purge_far.simps [simp del]

text \<open>
  The junction-entrance test. The front of the buffer is read without a test for
  emptiness, although the loop before it may have popped every waypoint.
\<close>

definition junction_entrance :: "env \<Rightarrow> Buffer \<Rightarrow> error + bool" where
  "junction_entrance w waypoint_buffer =
     (let look_ahead_point = GetTargetWaypoint w waypoint_buffer (JUNCTION_LOOK_AHEAD w)
      in if waypoint_buffer = [] then Inl EmptyContainer
         else if CheckJunction w (hd waypoint_buffer) then Inr False
         else (case look_ahead_point of
                 None \<Rightarrow> Inl NullPointer
               | Some p \<Rightarrow> Inr (CheckJunction w p)))"

definition purge_buffer ::
  "env \<Rightarrow> ActorId \<Rightarrow> vec \<Rightarrow> vec \<Rightarrow> real \<Rightarrow> Buffer \<times> TrackTraffic
     \<Rightarrow> error + bool \<times> Buffer \<times> TrackTraffic" where
  "purge_buffer w actor_id vehicle_location heading_vector horizon_sq bt =
     (if fst bt \<noteq> []
      then (case purge_passed w actor_id vehicle_location heading_vector
                   (DeviationDotProduct w vehicle_location heading_vector
                      (WpLocation w (hd (fst bt)))) bt of
              Inl e \<Rightarrow> Inl e
            | Inr bt1 \<Rightarrow>
                (case junction_entrance w (fst bt1) of
                   Inl e \<Rightarrow> Inl e
                 | Inr is_at_junction \<Rightarrow>
                     (case purge_far w actor_id is_at_junction horizon_sq bt1 of
                        Inl e \<Rightarrow> Inl e
                      | Inr bt2 \<Rightarrow> Inr (is_at_junction, bt2))))
      else Inr (False, bt))"

definition seed_buffer ::
  "env \<Rightarrow> ActorId \<Rightarrow> vec \<Rightarrow> Buffer \<times> TrackTraffic \<Rightarrow> error + Buffer \<times> TrackTraffic" where
  "seed_buffer w actor_id vehicle_location bt =
     (if fst bt = []
      then (let closest_waypoint =
                  (case GetWaypointInVicinity w vehicle_location of
                     None \<Rightarrow> Some (GetWaypoint w vehicle_location)
                   | Some c \<Rightarrow> Some c)
            in PushWaypoint actor_id bt closest_waypoint)
      else Inr bt)"

definition prepare_buffer ::
  "env \<Rightarrow> ActorId \<Rightarrow> vec \<Rightarrow> vec \<Rightarrow> real \<Rightarrow> Buffer \<times> TrackTraffic
     \<Rightarrow> error + bool \<times> Buffer \<times> TrackTraffic" where
  "prepare_buffer w actor_id vehicle_location heading_vector horizon_sq bt =
     (case clear_stale w actor_id vehicle_location bt of
        Inl e \<Rightarrow> Inl e
      | Inr bt1 \<Rightarrow>
          (case purge_buffer w actor_id vehicle_location heading_vector horizon_sq bt1 of
             Inl e \<Rightarrow> Inl e
           | Inr (is_at_junction, bt2) \<Rightarrow>
               (case seed_buffer w actor_id vehicle_location bt2 of
                  Inl e \<Rightarrow> Inl e
                | Inr bt3 \<Rightarrow> Inr (is_at_junction, bt3))))"

subsection \<open>Update: lane change, extension and junction\<close>

text \<open>Sequencing of computations that may fail or not return.\<close>

definition then_do :: "(error + 'a) option \<Rightarrow> ('a \<Rightarrow> (error + 'b) option) \<Rightarrow> (error + 'b) option" where
  "then_do m f = (case m of None \<Rightarrow> None | Some (Inl e) \<Rightarrow> Some (Inl e) | Some (Inr x) \<Rightarrow> f x)"

text \<open>
  The reference \<^verbatim>\<open>waypoint_buffer\<close> into the buffer map, with the registry: reading
  it and writing the pair back.
\<close>

definition waypoint_buffer :: "ActorId \<Rightarrow> stage \<Rightarrow> Buffer \<times> TrackTraffic" where
  "waypoint_buffer actor_id s =
     ((case buffer_map s actor_id of None \<Rightarrow> [] | Some b \<Rightarrow> b), track_traffic s)"

definition store_buffer :: "ActorId \<Rightarrow> Buffer \<times> TrackTraffic \<Rightarrow> stage \<Rightarrow> stage" where
  "store_buffer actor_id bt s =
     s\<lparr>buffer_map := (buffer_map s)(actor_id \<mapsto> fst bt), track_traffic := snd bt\<rparr>"

text \<open>The forced lane change and the keep-right bias; \<^verbatim>\<open>rand()\<close> is called only for a bias \<open>\<ge> 0\<close>.\<close>

definition lane_change_request :: "env \<Rightarrow> ActorId \<Rightarrow> nat \<Rightarrow> bool \<times> bool \<times> nat" where
  "lane_change_request w actor_id rp =
     (let lane_change_info = GetForceLaneChange w actor_id;
          force_lane_change = fst lane_change_info;
          lane_change_direction = snd lane_change_info
      in if \<not> force_lane_change
         then (let perc_keep_right = GetKeepRightPercentage w actor_id
               in if perc_keep_right \<ge> 0
                  then (if perc_keep_right \<ge> real (rand w rp mod 101)
                        then (True, True, Suc rp)
                        else (force_lane_change, lane_change_direction, Suc rp))
                  else (force_lane_change, lane_change_direction, rp))
         else (force_lane_change, lane_change_direction, rp))"

definition replace_buffer :: "ActorId \<Rightarrow> vec \<Rightarrow> wp \<Rightarrow> stage \<Rightarrow> error + stage" where
  "replace_buffer actor_id vehicle_location change_over_point s =
     (let s1 = s\<lparr>last_lane_change_location :=
                    (last_lane_change_location s)(actor_id \<mapsto> vehicle_location)\<rparr>;
          bt = waypoint_buffer actor_id s1
      in case pop_times (length (fst bt)) actor_id bt of
           Inl e \<Rightarrow> Inl e
         | Inr bt1 \<Rightarrow>
             (case PushWaypoint actor_id bt1 (Some change_over_point) of
                Inl e \<Rightarrow> Inl e
              | Inr bt2 \<Rightarrow> Inr (store_buffer actor_id bt2 s1)))"

definition lane_change_phase ::
  "env \<Rightarrow> ActorId \<Rightarrow> vec \<Rightarrow> real \<Rightarrow> stage \<Rightarrow> (error + stage) option" where
  "lane_change_phase w actor_id vehicle_location vehicle_speed s =
     (case lane_change_request w actor_id (rand_pos s) of
        (force_lane_change, lane_change_direction, rp) \<Rightarrow>
          (let s1 = s\<lparr>rand_pos := rp\<rparr>
           in case fst (waypoint_buffer actor_id s1) of
                [] \<Rightarrow> Some (Inl EmptyContainer)
              | front_waypoint # _ \<Rightarrow>
                  (let lane_change_distance =
                         to_float w
                           (SQUARE (max (to_float w (10 * vehicle_speed))
                                        (INTER_LANE_CHANGE_DISTANCE w)))
                   in if ((GetAutoLaneChange w actor_id \<or> force_lane_change)
                          \<and> \<not> CheckJunction w front_waypoint)
                         \<and> (case last_lane_change_location s1 actor_id of
                               None \<Rightarrow> True
                             | Some l \<Rightarrow> DistanceSquared l vehicle_location > lane_change_distance)
                      then then_do
                             (AssignLaneChange w s1 actor_id vehicle_location vehicle_speed
                                force_lane_change lane_change_direction)
                             (\<lambda>(change_over_point, s2).
                                case change_over_point of
                                  None \<Rightarrow> Some (Inr s2)
                                | Some c \<Rightarrow> Some (replace_buffer actor_id vehicle_location c s2))
                      else Some (Inr s1))))"

text \<open>
  Populating the buffer. \<^verbatim>\<open>next_waypoints.at(selection_index)\<close> throws when there is
  no successor; a null choice is replaced by the first successor that is not null, if any.
\<close>

fun first_valid :: "wp option list \<Rightarrow> wp option" where
  "first_valid [] = None"
| "first_valid (x # rest) = (if x \<noteq> None then x else first_valid rest)"

definition select_next :: "env \<Rightarrow> nat \<Rightarrow> wp option list \<Rightarrow> error + wp option \<times> nat" where
  "select_next w rp next_waypoints =
     (let sel = (if length next_waypoints > 1
                 then (rand w rp mod length next_waypoints, Suc rp)
                 else (0, rp));
          selection_index = fst sel
      in if selection_index \<ge> length next_waypoints then Inl OutOfRange
         else (case next_waypoints ! selection_index of
                 None \<Rightarrow> Inr (first_valid next_waypoints, snd sel)
               | Some x \<Rightarrow> Inr (Some x, snd sel)))"

partial_function (option) populate ::
  "env \<Rightarrow> ActorId \<Rightarrow> real \<Rightarrow> nat \<Rightarrow> Buffer \<times> TrackTraffic
     \<Rightarrow> (error + nat \<times> Buffer \<times> TrackTraffic) option" where
  "populate w actor_id horizon_sq rp bt =
     (if fst bt = [] then Some (Inl EmptyContainer)
      else if WpDistanceSquared w (last (fst bt)) (hd (fst bt)) \<le> horizon_sq
      then (case select_next w rp (GetNextWaypoint w (last (fst bt))) of
              Inl e \<Rightarrow> Some (Inl e)
            | Inr (next_wp, rp') \<Rightarrow>
                (case PushWaypoint actor_id bt next_wp of
                   Inl e \<Rightarrow> Some (Inl e)
                 | Inr bt' \<Rightarrow> populate w actor_id horizon_sq rp' bt'))
      else Some (Inr (rp, bt)))"

text \<open>The locals of the junction extension, and the scan of the existing buffer.\<close>

record junction_scan =
  entered_junction :: bool
  past_junction :: bool
  safe_point_found :: bool
  current_waypoint :: "wp option"
  junction_end :: "wp option"
  safe_point_after_junction :: "wp option"

fun scan_buffer :: "env \<Rightarrow> Buffer \<Rightarrow> junction_scan \<Rightarrow> error + junction_scan" where
  "scan_buffer w [] st = Inr st"
| "scan_buffer w (x # rest) st =
     (if safe_point_found st then Inr st
      else (let st1 = st\<lparr>current_waypoint := Some x\<rparr>;
                st2 = (if \<not> entered_junction st1 \<and> CheckJunction w x
                       then st1\<lparr>entered_junction := True\<rparr> else st1);
                st3 = (if entered_junction st2 \<and> \<not> past_junction st2 \<and> \<not> CheckJunction w x
                       then st2\<lparr>past_junction := True, junction_end := Some x\<rparr> else st2)
            in if past_junction st3
               then (case junction_end st3 of
                       None \<Rightarrow> Inl NullPointer
                     | Some j \<Rightarrow>
                         scan_buffer w rest
                           (if WpDistanceSquared w j x > SQUARE (SAFE_DISTANCE_AFTER_JUNCTION w)
                            then st3\<lparr>safe_point_found := True,
                                     safe_point_after_junction := Some x\<rparr>
                            else st3))
               else scan_buffer w rest st3))"

text \<open>
  The two loops that extend the buffer: until the junction is left, then until a safe
  point is found. Neither has a bound.
\<close>

partial_function (option) leave_junction ::
  "env \<Rightarrow> ActorId \<Rightarrow> wp \<Rightarrow> Buffer \<times> TrackTraffic \<Rightarrow> (error + wp \<times> Buffer \<times> TrackTraffic) option" where
  "leave_junction w actor_id c bt =
     (if GetNextWaypoint w c = [] then Some (Inl EmptyContainer)
      else (case PushWaypoint actor_id bt (hd (GetNextWaypoint w c)) of
              Inl e \<Rightarrow> Some (Inl e)
            | Inr bt' \<Rightarrow>
                (case hd (GetNextWaypoint w c) of
                   None \<Rightarrow> Some (Inl NullPointer)
                 | Some n \<Rightarrow>
                     if \<not> CheckJunction w n then Some (Inr (n, bt'))
                     else leave_junction w actor_id n bt')))"

partial_function (option) find_safe_point ::
  "env \<Rightarrow> ActorId \<Rightarrow> wp \<Rightarrow> wp \<Rightarrow> Buffer \<times> TrackTraffic
     \<Rightarrow> (error + wp \<times> Buffer \<times> TrackTraffic) option" where
  "find_safe_point w actor_id junction_end_pt c bt =
     (if WpDistanceSquared w junction_end_pt c > SQUARE (SAFE_DISTANCE_AFTER_JUNCTION w)
         \<or> length (GetNextWaypoint w c) > 1
         \<or> CheckJunction w c
      then Some (Inr (c, bt))
      else if GetNextWaypoint w c = [] then Some (Inl EmptyContainer)
      else (case PushWaypoint actor_id bt (hd (GetNextWaypoint w c)) of
              Inl e \<Rightarrow> Some (Inl e)
            | Inr bt' \<Rightarrow>
                (case hd (GetNextWaypoint w c) of
                   None \<Rightarrow> Some (Inl NullPointer)
                 | Some n \<Rightarrow> find_safe_point w actor_id junction_end_pt n bt')))"

definition extend_past_junction ::
  "env \<Rightarrow> ActorId \<Rightarrow> junction_scan \<Rightarrow> Buffer \<times> TrackTraffic
     \<Rightarrow> (error + junction_scan \<times> Buffer \<times> TrackTraffic) option" where
  "extend_past_junction w actor_id st bt =
     (if \<not> safe_point_found st
      then then_do
             (if \<not> past_junction st
              then (case current_waypoint st of
                      None \<Rightarrow> Some (Inl NullPointer)
                    | Some c \<Rightarrow>
                        then_do (leave_junction w actor_id c bt)
                          (\<lambda>(n, bt1). Some (Inr (st\<lparr>past_junction := True,
                                                     current_waypoint := Some n,
                                                     junction_end := Some n\<rparr>, bt1))))
              else Some (Inr (st, bt)))
             (\<lambda>(st1, bt1).
                case current_waypoint st1 of
                  None \<Rightarrow> Some (Inl NullPointer)
                | Some c \<Rightarrow>
                    (case junction_end st1 of
                       None \<Rightarrow> Some (Inl NullPointer)
                     | Some j \<Rightarrow>
                         then_do (find_safe_point w actor_id j c bt1)
                           (\<lambda>(p, bt2). Some (Inr (st1\<lparr>safe_point_found := True,
                                                       current_waypoint := Some p,
                                                       safe_point_after_junction := Some p\<rparr>,
                                                   bt2)))))
      else Some (Inr (st, bt)))"

definition write_output :: "nat \<Rightarrow> LocalizationData \<Rightarrow> stage \<Rightarrow> error + stage" where
  "write_output index output s =
     (if index < length (output_array s)
      then Inr (s\<lparr>output_array := (output_array s)[index := output]\<rparr>)
      else Inl OutOfRange)"

definition junction_phase ::
  "env \<Rightarrow> ActorId \<Rightarrow> nat \<Rightarrow> bool \<Rightarrow> stage \<Rightarrow> (error + stage) option" where
  "junction_phase w actor_id index is_at_junction s =
     (if is_at_junction \<and> actor_id \<notin> vehicles_at_junction s
      then (let s1 = s\<lparr>vehicles_at_junction := insert actor_id (vehicles_at_junction s)\<rparr>;
                bt = waypoint_buffer actor_id s1
            in case scan_buffer w (fst bt)
                      \<lparr>entered_junction = False, past_junction = False,
                       safe_point_found = False, current_waypoint = None,
                       junction_end = None, safe_point_after_junction = None\<rparr> of
                 Inl e \<Rightarrow> Some (Inl e)
               | Inr st \<Rightarrow>
                   then_do (extend_past_junction w actor_id st bt)
                     (\<lambda>(st', bt').
                        Some (write_output index
                                \<lparr>is_at_junction_entrance = is_at_junction,
                                 junction_end_point = junction_end st',
                                 safe_point = safe_point_after_junction st'\<rparr>
                                (store_buffer actor_id bt' s1))))
      else if \<not> is_at_junction \<and> actor_id \<in> vehicles_at_junction s
      then Some (write_output index
                   \<lparr>is_at_junction_entrance = is_at_junction,
                    junction_end_point = None, safe_point = None\<rparr>
                   (s\<lparr>vehicles_at_junction := vehicles_at_junction s - {actor_id}\<rparr>))
      else Some (Inr s))"

definition Update :: "env \<Rightarrow> nat \<Rightarrow> stage \<Rightarrow> (error + stage) option" where
  "Update w index s =
     (if index \<ge> length (vehicle_id_list w) then Some (Inl OutOfRange)
      else
        (let actor_id = vehicle_id_list w ! index;
             vehicle_location = GetLocation w actor_id;
             heading_vector = GetHeading w actor_id;
             vehicle_speed = Length (GetVelocity w actor_id);
             horizon_sq = horizon_square w actor_id;
             s0 = (if buffer_map s actor_id = None
                   then s\<lparr>buffer_map := (buffer_map s)(actor_id \<mapsto> [])\<rparr> else s)
         in case prepare_buffer w actor_id vehicle_location heading_vector horizon_sq
                   (waypoint_buffer actor_id s0) of
              Inl e \<Rightarrow> Some (Inl e)
            | Inr (is_at_junction, bt1) \<Rightarrow>
                then_do (lane_change_phase w actor_id vehicle_location vehicle_speed
                           (store_buffer actor_id bt1 s0))
                  (\<lambda>s2. then_do (populate w actor_id horizon_sq (rand_pos s2)
                                   (waypoint_buffer actor_id s2))
                     (\<lambda>(rp, bt3).
                        then_do (junction_phase w actor_id index is_at_junction
                                   (store_buffer actor_id bt3 (s2\<lparr>rand_pos := rp\<rparr>)))
                          (\<lambda>s4. Some (Inr (s4\<lparr>track_traffic :=
                                  UpdateGridPosition w actor_id (fst (waypoint_buffer actor_id s4))
                                    (track_traffic s4)\<rparr>)))))))"

text \<open>
  \<open>nth_next w c n\<close> is the waypoint reached from \<open>c\<close> by following element 0 of the
  successors \<open>n\<close> times, if all these elements exist and are not null.
\<close>

fun nth_next :: "env \<Rightarrow> wp \<Rightarrow> nat \<Rightarrow> wp option" where
  "nth_next w c 0 = Some c"
| "nth_next w c (Suc n) =
     (if GetNextWaypoint w c = [] then None
      else case hd (GetNextWaypoint w c) of None \<Rightarrow> None | Some x \<Rightarrow> nth_next w x n)"

text \<open>
  What the scan of the buffer maintains about its locals: a safe point is only found
  past the junction, and past the junction the junction end is set.
\<close>

definition scan_inv :: "junction_scan \<Rightarrow> bool" where
  "scan_inv st \<longleftrightarrow>
     (safe_point_found st \<longrightarrow> past_junction st \<and> safe_point_after_junction st \<noteq> None)
     \<and> (past_junction st \<longrightarrow> junction_end st \<noteq> None)"

subsection \<open>RemoveActor and Reset\<close>

definition RemoveActor :: "ActorId \<Rightarrow> stage \<Rightarrow> stage" where
  "RemoveActor actor_id s =
     (let s1 = (if last_lane_change_location s actor_id \<noteq> None
                then s\<lparr>last_lane_change_location := (last_lane_change_location s)(actor_id := None)\<rparr>
                else s)
      in if actor_id \<in> vehicles_at_junction s1
         then s1\<lparr>vehicles_at_junction := vehicles_at_junction s1 - {actor_id}\<rparr>
         else s1)"

definition Reset :: "stage \<Rightarrow> stage" where
  "Reset s = s\<lparr>last_lane_change_location := Map.empty, vehicles_at_junction := {}\<rparr>"

section \<open>Concrete road networks\<close>

text \<open>
  A straight one-lane road: waypoint \<open>n\<close> lies at \<open>(n, 0, 0)\<close> and its only successor is
  \<open>n + 1\<close>. One actor with id 1, standing at the origin and heading along the road.
  Every number that the runs on this road compute is a \<^verbatim>\<open>float\<close>, so the rounding is the
  identity here.
\<close>

definition line_env :: env where
  "line_env =
     \<lparr>vehicle_id_list = [1],
      GetLocation = (\<lambda>_. (0, 0, 0)),
      GetHeading = (\<lambda>_. (1, 0, 0)),
      GetVelocity = (\<lambda>_. (0, 0, 0)),
      GetForceLaneChange = (\<lambda>_. (False, False)),
      GetKeepRightPercentage = (\<lambda>_. - 1),
      GetAutoLaneChange = (\<lambda>_. False),
      GetWaypointInVicinity = (\<lambda>_. Some 1),
      GetWaypoint = (\<lambda>_. 1),
      GetNextWaypoint = (\<lambda>n. [Some (n + 1)]),
      GetLeftWaypoint = (\<lambda>_. None),
      GetRightWaypoint = (\<lambda>_. None),
      CheckJunction = (\<lambda>_. False),
      WpDistanceSquared = (\<lambda>a b. SQUARE (real b - real a)),
      WpLocation = (\<lambda>n. (real n, 0, 0)),
      GetForwardVector = (\<lambda>_. (1, 0, 0)),
      GetRoadId = (\<lambda>_. 0),
      GetLaneId = (\<lambda>_. 1),
      GetTargetWaypoint =
        (\<lambda>buf _. if buf = [] then None else Some (buf ! min 2 (length buf - 1))),
      DeviationDotProduct = (\<lambda>loc heading target. Dot heading (vec_minus target loc)),
      UpdateGridPosition = (\<lambda>_ _ tt. tt),
      rand = (\<lambda>_. 0),
      to_float = (\<lambda>r. r),
      HORIZON_RATE = 1,
      MINIMUM_HORIZON_LENGTH = 2,
      MAXIMUM_HORIZON_LENGTH = 4,
      MAX_START_DISTANCE = 5,
      JUNCTION_LOOK_AHEAD = 2,
      INTER_LANE_CHANGE_DISTANCE = 10,
      SAFE_DISTANCE_AFTER_JUNCTION = 1,
      MAXIMUM_LANE_OBSTACLE_CURVATURE = 1 / 2,
      MINIMUM_LANE_CHANGE_DISTANCE = 3,
      MAXIMUM_LANE_OBSTACLE_DISTANCE = 50\<rparr>"

definition empty_traffic :: TrackTraffic where
  "empty_traffic = \<lparr>waypoint_occupied = (\<lambda>_. {}), overlapping_vehicles = (\<lambda>_. [])\<rparr>"

definition no_output :: LocalizationData where
  "no_output = \<lparr>is_at_junction_entrance = False, junction_end_point = None, safe_point = None\<rparr>"

text \<open>
  The same road with a second lane to its right (waypoint \<open>n + 100\<close> is the right
  neighbour of \<open>n\<close>), and that road with a junction beginning at waypoint 101.
\<close>

definition two_lane_env :: env where
  "two_lane_env =
     line_env\<lparr>GetRightWaypoint := (\<lambda>n. if n < 100 then Some (n + 100) else None)\<rparr>"

definition junction_lane_env :: env where
  "junction_lane_env = two_lane_env\<lparr>CheckJunction := (\<lambda>n. 101 \<le> n \<and> n \<le> 103)\<rparr>"

text \<open>
  The two-lane road with a rounding to the multiples of \<open>1 / 2 ^ 21\<close>: these are the
  \<^verbatim>\<open>float\<close> values from 4 to 8, and every integer is among them.
\<close>

definition rounding_env :: env where
  "rounding_env = two_lane_env\<lparr>to_float := (\<lambda>r. of_int (round (r * 2 ^ 21)) / 2 ^ 21)\<rparr>"

text \<open>Actor 1 with the buffer \<open>[0, 1]\<close>; actor 2 ahead in its lane, overlapping with it.\<close>

definition two_actor_stage :: stage where
  "two_actor_stage =
     \<lparr>buffer_map = [1 \<mapsto> [0, 1], 2 \<mapsto> [5, 6]],
      track_traffic = empty_traffic\<lparr>overlapping_vehicles := (\<lambda>a. if a = 1 then [2] else [])\<rparr>,
      last_lane_change_location = Map.empty,
      vehicles_at_junction = {},
      output_array = [no_output],
      rand_pos = 0\<rparr>"

text \<open>A stage that has not seen any actor yet, with one output slot.\<close>

definition fresh_stage :: stage where
  "fresh_stage =
     \<lparr>buffer_map = Map.empty, track_traffic = empty_traffic,
      last_lane_change_location = Map.empty, vehicles_at_junction = {},
      output_array = [no_output], rand_pos = 0\<rparr>"

text \<open>The road ending at waypoint 2, which has no successor.\<close>

definition dead_end_env :: env where
  "dead_end_env = line_env\<lparr>GetNextWaypoint := (\<lambda>n. if n = 2 then [] else [Some (n + 1)])\<rparr>"

text \<open>
  The road running into a roundabout: the waypoints from 2 on are junction waypoints, and
  the successor of 4 is 2 again.
\<close>

definition roundabout_env :: env where
  "roundabout_env =
     line_env\<lparr>CheckJunction := (\<lambda>n. 2 \<le> n),
              GetNextWaypoint := (\<lambda>n. if n = 4 then [Some 2] else [Some (n + 1)])\<rparr>"

text \<open>The road crossing a junction that consists of the waypoints 3 and 4.\<close>

definition crossing_env :: env where
  "crossing_env = line_env\<lparr>CheckJunction := (\<lambda>n. n = 3 \<or> n = 4)\<rparr>"

text \<open>
  Stages for actor 1: with a buffer far ahead of the actor, with a buffer that reaches the
  junction of \<open>crossing_env\<close>, and with an output slot left from an earlier tick;
  \<open>snapshot\<close> is what a stage holds for actor 1 (its buffer, the junction-tracking set and
  the output frame). A buffer of five waypoints, longer than the horizon, and the locals of a junction
  extension that starts at waypoint 2 with the buffer \<open>[1, 2]\<close>.
\<close>

definition far_stage :: stage where
  "far_stage =
     fresh_stage\<lparr>buffer_map := [1 \<mapsto> [7, 8]],
       track_traffic :=
         empty_traffic\<lparr>waypoint_occupied := (\<lambda>x. if x = 7 \<or> x = 8 then {1} else {})\<rparr>\<rparr>"

definition crossing_stage :: stage where
  "crossing_stage = fresh_stage\<lparr>buffer_map := [1 \<mapsto> [1, 2, 3]]\<rparr>"

definition snapshot :: "stage \<Rightarrow> Buffer option \<times> ActorId set \<times> LocalizationData list" where
  "snapshot s = (buffer_map s 1, vehicles_at_junction s, output_array s)"

definition stale_output :: LocalizationData where
  "stale_output =
     \<lparr>is_at_junction_entrance = True, junction_end_point = Some 8, safe_point = Some 9\<rparr>"

definition long_buffer :: "Buffer \<times> TrackTraffic" where
  "long_buffer = ([1, 2, 3, 4, 5], empty_traffic)"

definition short_buffer :: "Buffer \<times> TrackTraffic" where
  "short_buffer = ([1, 2], empty_traffic)"

definition scan_at_2 :: junction_scan where
  "scan_at_2 =
     \<lparr>entered_junction = False, past_junction = False, safe_point_found = False,
      current_waypoint = Some 2, junction_end = None, safe_point_after_junction = None\<rparr>"

section \<open>Properties\<close>

subsection \<open>RemoveActor\<close>

lemma RemoveActor_lane_change:
  "last_lane_change_location (RemoveActor a s) = (last_lane_change_location s)(a := None)"
  by (cases "last_lane_change_location s a") (simp_all add: RemoveActor_def Let_def fun_eq_iff)

lemma RemoveActor_junction:
  "vehicles_at_junction (RemoveActor a s) = vehicles_at_junction s - {a}"
  by (auto simp: RemoveActor_def Let_def)

text \<open>
  Claim C5. RemoveActor is a total function (it cannot fail); calling it twice on one
  actor id gives the state that one call gives; and when the actor has an entry neither
  in the lane-change memory nor in the junction-tracking set, the state is unchanged.
\<close>

theorem RemoveActor_idempotent:
  "RemoveActor a (RemoveActor a s) = RemoveActor a s \<and>
   (last_lane_change_location s a = None \<and> a \<notin> vehicles_at_junction s
      \<longrightarrow> RemoveActor a s = s)"
  by (auto simp: RemoveActor_def Let_def)

theorem RemoveActor_idempotent_witness:
  "(let s = \<lparr>buffer_map = Map.empty,
             track_traffic = \<lparr>waypoint_occupied = (\<lambda>_. {}), overlapping_vehicles = (\<lambda>_. [])\<rparr>,
             last_lane_change_location = [3 \<mapsto> (1, 2, 0)],
             vehicles_at_junction = {3, 4},
             output_array = [], rand_pos = 0\<rparr>
    in RemoveActor 3 (RemoveActor 3 s) = RemoveActor 3 s
     \<and> last_lane_change_location (RemoveActor 3 s) 3 = None
     \<and> vehicles_at_junction (RemoveActor 3 s) = {4}
     \<and> last_lane_change_location s 7 = None \<and> 7 \<notin> vehicles_at_junction s
     \<and> RemoveActor 7 s = s)"
  using RemoveActor_idempotent [of 3] RemoveActor_idempotent [of 7]
  by (simp add: Let_def RemoveActor_lane_change RemoveActor_junction)

subsection \<open>AssignLaneChange\<close>

lemmas fixture_defs =
  line_env_def two_lane_env_def junction_lane_env_def two_actor_stage_def empty_traffic_def
  no_output_def fresh_stage_def dead_end_env_def roundabout_env_def crossing_env_def
  far_stage_def crossing_stage_def stale_output_def long_buffer_def short_buffer_def
  scan_at_2_def snapshot_def rounding_env_def

lemmas AssignLaneChange_defs =
  AssignLaneChange_def GetOverlappingVehicles_def is_lane_obstacle_def SQUARE_def
  choose_free_side_def choose_forced_side_def lane_free_def GetPassingVehicles_def Clamp_def
  change_over_dist_def Let_def

lemma scan_blocking_forced: "scan_blocking w s c loc True xs st = st"
  by (cases xs) simp_all

lemma Clamp_range: "lo \<le> hi \<Longrightarrow> lo \<le> Clamp a lo hi \<and> Clamp a lo hi \<le> hi"
  by (simp add: Clamp_def)

text \<open>
  The projection loop returns the first waypoint of the chain of first successors at
  which its condition fails.
\<close>

lemma advance_change_over_chain:
  "nth_next w c n = Some r \<Longrightarrow>
   (\<forall>k<n. \<exists>x. nth_next w c k = Some x \<and> WpDistanceSquared w x start < to_float w (SQUARE d)
               \<and> \<not> CheckJunction w x) \<Longrightarrow>
   \<not> WpDistanceSquared w r start < to_float w (SQUARE d) \<or> CheckJunction w r \<Longrightarrow>
   advance_change_over w start d c = Some (Inr (Some r))"
proof (induction n arbitrary: c)
  case 0
  then show ?case by (subst advance_change_over.simps) auto
next
  case (Suc n)
  from Suc.prems(2) have c0: "WpDistanceSquared w c start < to_float w (SQUARE d) \<and> \<not> CheckJunction w c"
    by (auto dest: spec [of _ 0])
  from Suc.prems(1) obtain x where x: "GetNextWaypoint w c \<noteq> []"
    "hd (GetNextWaypoint w c) = Some x" "nth_next w x n = Some r"
    by (auto split: if_splits option.splits)
  have "\<forall>k<n. \<exists>y. nth_next w x k = Some y \<and> WpDistanceSquared w y start < to_float w (SQUARE d)
                 \<and> \<not> CheckJunction w y"
  proof (intro allI impI)
    fix k assume "k < n"
    then have "Suc k < Suc n" by simp
    with Suc.prems(2) obtain y where "nth_next w c (Suc k) = Some y"
      "WpDistanceSquared w y start < to_float w (SQUARE d) \<and> \<not> CheckJunction w y" by blast
    with x show "\<exists>y. nth_next w x k = Some y \<and> WpDistanceSquared w y start < to_float w (SQUARE d)
                    \<and> \<not> CheckJunction w y"
      by simp
  qed
  from Suc.IH [OF x(3) this Suc.prems(3)] c0 x show ?case
    by (subst advance_change_over.simps) simp
qed

text \<open>
  Claim C6. For an actor with a non-empty buffer, a forced lane change returns none and
  leaves the state (so the buffer) as it is when the neighbour on the requested side of the
  front waypoint is none: the right one for direction = right, the left one for
  direction = left. When that neighbour exists, the result is the projection of that
  neighbour, whatever the registry says about the occupancy of any waypoint.
\<close>

theorem AssignLaneChange_forced:
  assumes "buffer_map s actor_id = Some (front # rest)"
  shows "AssignLaneChange w s actor_id loc speed True direction =
     (case (if direction then GetRightWaypoint w front else GetLeftWaypoint w front) of
        None \<Rightarrow> Some (Inr (None, s))
      | Some n \<Rightarrow> map_option (map_sum id (\<lambda>p. (p, s)))
                    (advance_change_over w n (change_over_dist w speed) n))"
  using assms
  by (auto simp: AssignLaneChange_def Let_def scan_blocking_forced choose_forced_side_def
      split: option.splits sum.splits)

theorem AssignLaneChange_forced_witness:
  "buffer_map two_actor_stage 1 = Some (0 # [1]) \<and>
   GetRightWaypoint line_env 0 = None \<and>
   AssignLaneChange line_env two_actor_stage 1 (0, 0, 0) 0 True True
     = Some (Inr (None, two_actor_stage)) \<and>
   GetLeftWaypoint two_lane_env 0 = None \<and>
   AssignLaneChange two_lane_env two_actor_stage 1 (0, 0, 0) 0 True False
     = Some (Inr (None, two_actor_stage))"
proof -
  have b: "buffer_map two_actor_stage 1 = Some (0 # [1])"
    by (simp add: two_actor_stage_def)
  show ?thesis
    using b AssignLaneChange_forced [OF b, of line_env "(0, 0, 0)" 0 True]
      AssignLaneChange_forced [OF b, of two_lane_env "(0, 0, 0)" 0 False]
    by (simp add: line_env_def two_lane_env_def)
qed

text \<open>
  Claim C8, as the code has it. Let \<open>d\<close> be the change-over distance that line 399
  computes: the \<^verbatim>\<open>float\<close> product of 1.5 and the speed, clamped to [3, 20]. The
  change-over point moves from the chosen neighbour along the first successors while its
  squared distance from that neighbour is below the \<^verbatim>\<open>float\<close> square of \<open>d\<close> and it is not
  a junction waypoint. So the loop returns the first waypoint of that chain that is a
  junction waypoint or whose squared distance from the neighbour is not below that square:
  it never moves on from a junction waypoint, but the point returned may be the first
  junction waypoint itself.
\<close>

theorem change_over_projection:
  assumes "nth_next w start n = Some r"
    and "\<forall>k<n. \<exists>x. nth_next w start k = Some x
                   \<and> WpDistanceSquared w x start
                       < to_float w (SQUARE (change_over_dist w speed))
                   \<and> \<not> CheckJunction w x"
    and "\<not> WpDistanceSquared w r start < to_float w (SQUARE (change_over_dist w speed))
         \<or> CheckJunction w r"
  shows "advance_change_over w start (change_over_dist w speed) start = Some (Inr (Some r))
         \<and> change_over_dist w speed = Clamp (to_float w (1.5 * speed)) 3 20
         \<and> 3 \<le> change_over_dist w speed \<and> change_over_dist w speed \<le> 20"
  using advance_change_over_chain [OF assms] Clamp_range [of 3 20 "to_float w (1.5 * speed)"]
  by (simp add: change_over_dist_def)

text \<open>
  At the speed 11184811 / 4194304 the exact product with 1.5 is just above 4 and is
  rounded to 4: the walk from waypoint 100 ends at 104, whose squared distance 16 is not
  below the square of 4.
\<close>

theorem change_over_projection_witness:
  "change_over_dist rounding_env (11184811 / 4194304) = 4 \<and>
   nth_next rounding_env 100 4 = Some 104 \<and>
   advance_change_over rounding_env 100 (change_over_dist rounding_env (11184811 / 4194304))
     100 = Some (Inr (Some 104))"
proof -
  have r: "round (8388608 + 1 / 4 :: real) = 8388608"
    by (rule round_unique') simp
  have d: "change_over_dist rounding_env (11184811 / 4194304) = 4"
    using r by (simp add: change_over_dist_def rounding_env_def Clamp_def)
  have s: "to_float rounding_env (SQUARE 4) = 16"
    by (simp add: rounding_env_def SQUARE_def)
  have n: "nth_next rounding_env 100 4 = Some 104"
    by (simp add: rounding_env_def two_lane_env_def line_env_def eval_nat_numeral)
  have k: "\<forall>k<4. \<exists>x. nth_next rounding_env 100 k = Some x
             \<and> WpDistanceSquared rounding_env x 100
                 < to_float rounding_env
                     (SQUARE (change_over_dist rounding_env (11184811 / 4194304)))
             \<and> \<not> CheckJunction rounding_env x"
    unfolding d s
    by (simp add: rounding_env_def two_lane_env_def line_env_def SQUARE_def All_less_Suc
        eval_nat_numeral)
  have e: "\<not> WpDistanceSquared rounding_env 104 100
               < to_float rounding_env
                   (SQUARE (change_over_dist rounding_env (11184811 / 4194304)))
           \<or> CheckJunction rounding_env 104"
    unfolding d s
    by (simp add: rounding_env_def two_lane_env_def line_env_def SQUARE_def)
  from change_over_projection [OF n k e] n d show ?thesis by simp
qed

text \<open>
  The claim as the spec words it fails: a forced change to the right at waypoint 0, whose
  right neighbour 100 is followed by the junction waypoint 101, hands back 101.
\<close>

theorem change_over_into_junction_counterexample:
  "AssignLaneChange junction_lane_env two_actor_stage 1 (0, 0, 0) 0 True True
     = Some (Inr (Some 101, two_actor_stage))
   \<and> \<not> CheckJunction junction_lane_env 100 \<and> CheckJunction junction_lane_env 101"
  by (simp add: AssignLaneChange_defs fixture_defs scan_blocking_forced
      advance_change_over.simps)

lemma AssignLaneChange_state:
  "AssignLaneChange w s actor_id loc speed force direction = Some (Inr (r, s')) \<Longrightarrow> s' = s"
  by (auto simp: AssignLaneChange_def Let_def
      split: option.splits list.splits sum.splits if_splits)

text \<open>
  Claim C9. Whenever AssignLaneChange returns, forced or not, with a change-over point or
  with none, the state of the stage after the call is the state before it: every buffer
  and every cell-membership set of the registry included. Its only effect is the
  waypoint it returns.
\<close>

theorem AssignLaneChange_read_only:
  "AssignLaneChange w s actor_id loc speed force direction = Some (Inr (r, s'))
   \<Longrightarrow> s' = s \<and> buffer_map s' = buffer_map s
       \<and> waypoint_occupied (track_traffic s') = waypoint_occupied (track_traffic s)"
  by (auto simp: AssignLaneChange_def Let_def
      split: option.splits list.splits sum.splits if_splits)

theorem AssignLaneChange_read_only_witness:
  "AssignLaneChange two_lane_env two_actor_stage 1 (0, 0, 0) 0 False False
     = Some (Inr (Some 103, two_actor_stage))
   \<and> buffer_map two_actor_stage 1 = Some [0, 1]"
proof -
  have r: "AssignLaneChange two_lane_env two_actor_stage 1 (0, 0, 0) 0 False False
             = Some (Inr (Some 103, two_actor_stage))"
    by (simp add: AssignLaneChange_defs fixture_defs advance_change_over.simps)
  from AssignLaneChange_read_only [OF r] r show ?thesis
    by (simp add: two_actor_stage_def)
qed

subsection \<open>Update: the phases\<close>

lemmas Update_defs =
  Update_def then_do_def horizon_square_def prepare_buffer_def clear_stale_def
  purge_buffer_def seed_buffer_def waypoint_buffer_def store_buffer_def lane_change_phase_def
  lane_change_request_def select_next_def junction_phase_def write_output_def PushWaypoint_def
  PopWaypoint_def UpdatePassingVehicle_def RemovePassingVehicle_def junction_entrance_def
  extend_past_junction_def replace_buffer_def SQUARE_def Let_def purge_passed.simps
  purge_far.simps populate.simps

lemmas extension_simps = leave_junction.simps find_safe_point.simps

lemma pop_times_all:
  "pop_times (length buf) a (buf, tt) = Inr ([], fold (\<lambda>x. RemovePassingVehicle x a) buf tt)"
  by (induction buf arbitrary: tt) (simp_all add: PopWaypoint_def)

lemma first_valid_None: "first_valid nw = None \<longleftrightarrow> (\<forall>x\<in>set nw. x = None)"
  by (induction nw) auto

text \<open>
  The choice of the successor: the result is null only if every successor is null.
\<close>

lemma select_next_fallback:
  assumes "select_next w rp nw = Inr (x, rp')"
  shows "x = None \<longleftrightarrow> (\<forall>y\<in>set nw. y = None)"
proof -
  define i where "i = (if length nw > 1 then rand w rp mod length nw else 0)"
  from assms have i: "i < length nw"
    by (auto simp: select_next_def Let_def i_def split: if_splits)
  show ?thesis
  proof (cases "nw ! i")
    case None
    with assms i have "x = first_valid nw"
      by (auto simp: select_next_def Let_def i_def split: if_splits)
    then show ?thesis by (simp add: first_valid_None)
  next
    case (Some y)
    with assms i have "x = Some y"
      by (auto simp: select_next_def Let_def i_def split: if_splits)
    moreover from Some i have "Some y \<in> set nw" by (metis nth_mem)
    ultimately show ?thesis by auto
  qed
qed

text \<open>An empty buffer is seeded with the waypoint in the vicinity, or else the nearest one.\<close>

lemma seed_buffer_empty:
  "fst bt = [] \<Longrightarrow>
   seed_buffer w a loc bt =
     (let closest = (case GetWaypointInVicinity w loc of
                       None \<Rightarrow> GetWaypoint w loc | Some c \<Rightarrow> c)
      in Inr ([closest], UpdatePassingVehicle closest a (snd bt)))"
  by (simp add: seed_buffer_def PushWaypoint_def Let_def split: option.splits)

text \<open>The back purge stops at junction entrance, on an empty buffer or within the horizon.\<close>

lemma purge_far_result:
  "purge_far w a jn hsq bt = Inr bt' \<Longrightarrow>
   jn \<or> fst bt' = [] \<or> WpDistanceSquared w (last (fst bt')) (hd (fst bt')) \<le> hsq"
proof (induction w a jn hsq bt rule: purge_far.induct)
  case (1 w a jn hsq bt)
  show ?case
  proof (cases "\<not> jn \<and> fst bt \<noteq> [] \<and> WpDistanceSquared w (last (fst bt)) (hd (fst bt)) > hsq")
    case True
    with "1.prems" obtain bt1 where "PopWaypoint a bt False = Inr bt1"
      "purge_far w a jn hsq bt1 = Inr bt'"
      by (subst (asm) purge_far.simps) (auto split: sum.splits)
    with True "1.IH" show ?thesis by blast
  next
    case False
    with "1.prems" have "bt' = bt" by (subst (asm) purge_far.simps) auto
    with False show ?thesis by auto
  qed
qed

text \<open>The populating loop only returns once the back is beyond the horizon.\<close>

lemma populate_result:
  assumes r: "populate w a hsq rp bt = Some (Inr (rp', bt'))"
  shows "fst bt' \<noteq> [] \<and> hsq < WpDistanceSquared w (last (fst bt')) (hd (fst bt'))"
proof -
  have "\<forall>rp' bt'. y = Inr (rp', bt') \<longrightarrow>
      fst bt' \<noteq> [] \<and> hsq < WpDistanceSquared w (last (fst bt')) (hd (fst bt'))"
    if "populate w a hsq rp bt = Some y" for y
  proof (rule populate.raw_induct
      [where P = "\<lambda>w a hsq rp bt y. \<forall>rp' bt'. y = Inr (rp', bt') \<longrightarrow>
        fst bt' \<noteq> [] \<and> hsq < WpDistanceSquared w (last (fst bt')) (hd (fst bt'))", OF _ that],
      goal_cases)
    case (1 f w a hsq rp bt y)
    show ?case
    proof (cases "fst bt \<noteq> [] \<and> WpDistanceSquared w (last (fst bt)) (hd (fst bt)) \<le> hsq")
      case False
      with 1(2) show ?thesis by (auto split: if_splits)
    next
      case True
      show ?thesis
      proof (cases "select_next w rp (GetNextWaypoint w (last (fst bt)))")
        case (Inl e)
        with True 1(2) show ?thesis by auto
      next
        case (Inr p)
        obtain nw rp1 where p: "p = (nw, rp1)" by (cases p)
        show ?thesis
        proof (cases "PushWaypoint a bt nw")
          case (Inl e)
          with True Inr p 1(2) show ?thesis by auto
        next
          case bt1: (Inr bt1)
          with True Inr p 1(2) have "f w a hsq rp1 bt1 = Some y" by simp
          then show ?thesis by (rule 1(1))
        qed
      qed
    qed
  qed
  with r show ?thesis by blast
qed

text \<open>The lane change leaves the junction-tracking set and the output frame alone.\<close>

lemma replace_buffer_frame:
  "replace_buffer a loc c s = Inr s' \<Longrightarrow>
   vehicles_at_junction s' = vehicles_at_junction s \<and> output_array s' = output_array s"
  by (auto simp: replace_buffer_def store_buffer_def Let_def split: sum.splits)

lemma lane_change_phase_frame:
  assumes "lane_change_phase w a loc v s = Some (Inr s')"
  shows "vehicles_at_junction s' = vehicles_at_junction s \<and> output_array s' = output_array s"
proof -
  obtain force dir rp where req: "lane_change_request w a (rand_pos s) = (force, dir, rp)"
    by (cases "lane_change_request w a (rand_pos s)") auto
  define s1 where "s1 = s\<lparr>rand_pos := rp\<rparr>"
  have s1: "vehicles_at_junction s1 = vehicles_at_junction s" "output_array s1 = output_array s"
    by (simp_all add: s1_def)
  show ?thesis
  proof (cases "AssignLaneChange w s1 a loc v force dir")
    case None
    with assms req show ?thesis
      by (auto simp: lane_change_phase_def then_do_def Let_def s1_def
          split: list.splits if_splits)
  next
    case (Some r)
    show ?thesis
    proof (cases r)
      case (Inl e)
      with Some assms req show ?thesis
        by (auto simp: lane_change_phase_def then_do_def Let_def s1_def
            split: list.splits if_splits)
    next
      case (Inr p)
      obtain cop s2 where p: "p = (cop, s2)" by (cases p)
      with Some Inr have "s2 = s1" by (auto dest: AssignLaneChange_state)
      with Some Inr p assms req s1 show ?thesis
        by (auto simp: lane_change_phase_def then_do_def Let_def s1_def [symmetric]
            split: list.splits if_splits option.splits dest: replace_buffer_frame)
    qed
  qed
qed

text \<open>The junction extension hands over a junction end and a safe point.\<close>

lemma scan_buffer_inv:
  "scan_buffer w buf st = Inr st' \<Longrightarrow> scan_inv st \<Longrightarrow> scan_inv st'"
proof (induction buf arbitrary: st)
  case Nil
  then show ?case by simp
next
  case (Cons x rest)
  show ?case
  proof (cases "safe_point_found st")
    case True
    with Cons.prems show ?thesis by simp
  next
    case False
    with Cons.prems(1) obtain st3 where "scan_buffer w rest st3 = Inr st'" "scan_inv st3"
      using Cons.prems(2)
      by (auto simp: Let_def scan_inv_def split: if_splits option.splits)
    then show ?thesis by (rule Cons.IH)
  qed
qed

lemma extend_past_junction_result:
  assumes "extend_past_junction w a st bt = Some (Inr (st', bt'))" and "scan_inv st"
  shows "junction_end st' \<noteq> None \<and> safe_point_after_junction st' \<noteq> None"
  using assms
  by (auto simp: extend_past_junction_def then_do_def scan_inv_def
      split: if_splits option.splits sum.splits prod.splits)

lemma junction_phase_cases:
  assumes "junction_phase w a i jn s = Some (Inr s')"
  shows "(jn \<and> a \<notin> vehicles_at_junction s
            \<and> vehicles_at_junction s' = insert a (vehicles_at_junction s)
            \<and> (\<exists>e p. output_array s' = (output_array s)
                  [i := \<lparr>is_at_junction_entrance = True, junction_end_point = Some e,
                         safe_point = Some p\<rparr>]))
       \<or> (\<not> jn \<and> a \<in> vehicles_at_junction s
            \<and> vehicles_at_junction s' = vehicles_at_junction s - {a}
            \<and> buffer_map s' = buffer_map s
            \<and> output_array s' = (output_array s)
                  [i := \<lparr>is_at_junction_entrance = False, junction_end_point = None,
                         safe_point = None\<rparr>])
       \<or> ((jn \<longleftrightarrow> a \<in> vehicles_at_junction s) \<and> s' = s)"
proof (cases "jn \<and> a \<notin> vehicles_at_junction s")
  case True
  define s1 where "s1 = s\<lparr>vehicles_at_junction := insert a (vehicles_at_junction s)\<rparr>"
  define st0 where "st0 = \<lparr>entered_junction = False, past_junction = False,
                       safe_point_found = False, current_waypoint = None,
                       junction_end = None, safe_point_after_junction = None\<rparr>"
  have inv0: "scan_inv st0" by (simp add: scan_inv_def st0_def)
  from assms True obtain st st' bt' where
    sc: "scan_buffer w (fst (waypoint_buffer a s1)) st0 = Inr st"
    and ex: "extend_past_junction w a st (waypoint_buffer a s1) = Some (Inr (st', bt'))"
    and wr: "write_output i \<lparr>is_at_junction_entrance = True, junction_end_point = junction_end st',
               safe_point = safe_point_after_junction st'\<rparr> (store_buffer a bt' s1) = Inr s'"
    by (auto simp: junction_phase_def then_do_def Let_def s1_def st0_def
        split: sum.splits option.splits)
  from extend_past_junction_result [OF ex scan_buffer_inv [OF sc inv0]]
  obtain e p where "junction_end st' = Some e" "safe_point_after_junction st' = Some p" by auto
  with wr have "vehicles_at_junction s' = insert a (vehicles_at_junction s)"
    "output_array s' = (output_array s)
       [i := \<lparr>is_at_junction_entrance = True, junction_end_point = Some e,
              safe_point = Some p\<rparr>]"
    by (auto simp: write_output_def store_buffer_def s1_def split: if_splits)
  with True show ?thesis by blast
next
  case False
  with assms show ?thesis
    by (auto simp: junction_phase_def write_output_def split: if_splits)
qed

lemma Update_phases:
  fixes w i s
  defines "a \<equiv> vehicle_id_list w ! i"
  defines "s0 \<equiv> (if buffer_map s a = None then s\<lparr>buffer_map := (buffer_map s)(a \<mapsto> [])\<rparr> else s)"
  assumes "Update w i s = Some (Inr s')"
  obtains jn bt1 s2 rp bt3 s4 where
    "i < length (vehicle_id_list w)"
    "prepare_buffer w a (GetLocation w a) (GetHeading w a) (horizon_square w a)
       (waypoint_buffer a s0) = Inr (jn, bt1)"
    "lane_change_phase w a (GetLocation w a) (Length (GetVelocity w a)) (store_buffer a bt1 s0)
       = Some (Inr s2)"
    "populate w a (horizon_square w a) (rand_pos s2) (waypoint_buffer a s2) = Some (Inr (rp, bt3))"
    "junction_phase w a i jn (store_buffer a bt3 (s2\<lparr>rand_pos := rp\<rparr>)) = Some (Inr s4)"
    "s' = s4\<lparr>track_traffic := UpdateGridPosition w a (fst (waypoint_buffer a s4)) (track_traffic s4)\<rparr>"
  using assms(3) unfolding Update_def Let_def then_do_def a_def [symmetric] s0_def [symmetric]
  by (auto split: if_splits sum.splits option.splits prod.splits)

text \<open>
  The two extension loops follow the chain of first successors: the first one to the first
  waypoint outside the junction, the second one to the first safe point.
\<close>

lemma PushWaypoint_Some:
  "PushWaypoint a bt (Some x) = Inr (fst bt @ [x], UpdatePassingVehicle x a (snd bt))"
  by (simp add: PushWaypoint_def)

lemma leave_junction_chain:
  "0 < n \<Longrightarrow> nth_next w c n = Some e \<Longrightarrow> \<not> CheckJunction w e \<Longrightarrow>
   (\<forall>k. 0 < k \<and> k < n \<longrightarrow> (\<exists>x. nth_next w c k = Some x \<and> CheckJunction w x)) \<Longrightarrow>
   \<exists>bt'. leave_junction w a c bt = Some (Inr (e, bt')) \<and> length (fst bt') = length (fst bt) + n"
proof (induction n arbitrary: c bt)
  case 0
  then show ?case by simp
next
  case (Suc n)
  from Suc.prems(2) obtain x where x: "GetNextWaypoint w c \<noteq> []"
    "hd (GetNextWaypoint w c) = Some x" "nth_next w x n = Some e"
    by (auto split: if_splits option.splits)
  show ?case
  proof (cases n)
    case 0
    with x Suc.prems(3) show ?thesis
      by (subst leave_junction.simps) (simp add: PushWaypoint_Some)
  next
    case (Suc n')
    with Suc.prems(4) have "\<exists>y. nth_next w c (Suc 0) = Some y \<and> CheckJunction w y"
      by (auto dest!: spec [of _ "Suc 0"])
    with x have cj: "CheckJunction w x" by simp
    have "\<forall>k. 0 < k \<and> k < n \<longrightarrow> (\<exists>y. nth_next w x k = Some y \<and> CheckJunction w y)"
    proof (intro allI impI)
      fix k assume "0 < k \<and> k < n"
      then have "0 < Suc k \<and> Suc k < Suc n" by simp
      with Suc.prems(4) obtain y where "nth_next w c (Suc k) = Some y" "CheckJunction w y"
        by blast
      with x show "\<exists>y. nth_next w x k = Some y \<and> CheckJunction w y" by simp
    qed
    with Suc.IH [of x "(fst bt @ [x], UpdatePassingVehicle x a (snd bt))"] x Suc.prems(3) Suc
    obtain bt' where "leave_junction w a x (fst bt @ [x], UpdatePassingVehicle x a (snd bt))
        = Some (Inr (e, bt'))" "length (fst bt') = length (fst bt) + Suc n"
      by auto
    with x cj show ?thesis
      by (subst leave_junction.simps) (simp add: PushWaypoint_Some)
  qed
qed

lemma find_safe_point_chain:
  "nth_next w c m = Some p \<Longrightarrow>
   (\<forall>k<m. \<exists>x. nth_next w c k = Some x
       \<and> \<not> (SQUARE (SAFE_DISTANCE_AFTER_JUNCTION w) < WpDistanceSquared w e x
            \<or> 1 < length (GetNextWaypoint w x) \<or> CheckJunction w x)) \<Longrightarrow>
   SQUARE (SAFE_DISTANCE_AFTER_JUNCTION w) < WpDistanceSquared w e p
     \<or> 1 < length (GetNextWaypoint w p) \<or> CheckJunction w p \<Longrightarrow>
   \<exists>bt'. find_safe_point w a e c bt = Some (Inr (p, bt'))
        \<and> length (fst bt') = length (fst bt) + m"
proof (induction m arbitrary: c bt)
  case 0
  then show ?case by (subst find_safe_point.simps) auto
next
  case (Suc m)
  from Suc.prems(1) obtain x where x: "GetNextWaypoint w c \<noteq> []"
    "hd (GetNextWaypoint w c) = Some x" "nth_next w x m = Some p"
    by (auto split: if_splits option.splits)
  from Suc.prems(2) have c0: "\<not> (SQUARE (SAFE_DISTANCE_AFTER_JUNCTION w) < WpDistanceSquared w e c
            \<or> 1 < length (GetNextWaypoint w c) \<or> CheckJunction w c)"
    by (auto dest!: spec [of _ 0])
  have "\<forall>k<m. \<exists>y. nth_next w x k = Some y
       \<and> \<not> (SQUARE (SAFE_DISTANCE_AFTER_JUNCTION w) < WpDistanceSquared w e y
            \<or> 1 < length (GetNextWaypoint w y) \<or> CheckJunction w y)"
  proof (intro allI impI)
    fix k assume "k < m"
    then have "Suc k < Suc m" by simp
    with Suc.prems(2) obtain y where "nth_next w c (Suc k) = Some y"
      "\<not> (SQUARE (SAFE_DISTANCE_AFTER_JUNCTION w) < WpDistanceSquared w e y
            \<or> 1 < length (GetNextWaypoint w y) \<or> CheckJunction w y)" by blast
    with x show "\<exists>y. nth_next w x k = Some y
       \<and> \<not> (SQUARE (SAFE_DISTANCE_AFTER_JUNCTION w) < WpDistanceSquared w e y
            \<or> 1 < length (GetNextWaypoint w y) \<or> CheckJunction w y)" by simp
  qed
  from Suc.IH [OF x(3) this Suc.prems(3), of "(fst bt @ [x], UpdatePassingVehicle x a (snd bt))"]
  obtain bt' where "find_safe_point w a e x (fst bt @ [x], UpdatePassingVehicle x a (snd bt))
      = Some (Inr (p, bt'))" "length (fst bt') = length (fst bt) + Suc m"
    by auto
  with x c0 show ?case
    by (subst find_safe_point.simps) (simp add: PushWaypoint_Some)
qed

text \<open>
  Where the first successors never lead out of the junction, the first loop does not
  return.
\<close>

lemma leave_junction_diverges:
  assumes closed: "\<And>x. J x \<Longrightarrow> GetNextWaypoint w x \<noteq> [] \<and>
             (\<exists>n. hd (GetNextWaypoint w x) = Some n \<and> J n \<and> CheckJunction w n)"
    and "J c"
  shows "leave_junction w a c bt = None"
proof -
  have "w' = w \<longrightarrow> \<not> J c" if "leave_junction w' a c bt = Some y" for w' y
  proof (rule leave_junction.raw_induct
      [where P = "\<lambda>w' a c bt y. w' = w \<longrightarrow> \<not> J c", OF _ that], goal_cases)
    case (1 f w' a c bt y)
    show ?case
    proof (intro impI notI)
      assume w: "w' = w" and "J c"
      from closed [OF \<open>J c\<close>] obtain n where n: "GetNextWaypoint w c \<noteq> []"
        "hd (GetNextWaypoint w c) = Some n" "J n" "CheckJunction w n" by blast
      with 1(2) w have "f w a n (fst bt @ [n], UpdatePassingVehicle n a (snd bt)) = Some y"
        by (simp add: PushWaypoint_def)
      from 1(1) [OF this] n(3) show False by simp
    qed
  qed
  with \<open>J c\<close> show ?thesis by (cases "leave_junction w a c bt") auto
qed

text \<open>Runs of Update on the concrete road networks.\<close>

lemma line_env_run:
  "\<exists>s'. Update line_env 0 fresh_stage = Some (Inr s') \<and> buffer_map s' 1 = Some [1, 2, 3, 4]
        \<and> vehicles_at_junction s' = {} \<and> output_array s' = [no_output]"
  by (simp add: Update_defs fixture_defs)

lemma line_env_stale_run:
  "\<exists>s'. Update line_env 0 (fresh_stage\<lparr>output_array := [stale_output]\<rparr>) = Some (Inr s')
        \<and> vehicles_at_junction s' = {} \<and> output_array s' = [stale_output]"
  by (simp add: Update_defs fixture_defs)

lemma crossing_env_run:
  "\<exists>s'. Update crossing_env 0 crossing_stage = Some (Inr s')
        \<and> buffer_map s' 1 = Some [1, 2, 3, 4, 5, 6, 7]
        \<and> vehicles_at_junction s' = {1}
        \<and> output_array s' = [\<lparr>is_at_junction_entrance = True, junction_end_point = Some 5,
                                safe_point = Some 7\<rparr>]"
  by (simp add: Update_defs extension_simps fixture_defs)

lemma long_buffer_purged:
  "\<exists>bt'. purge_far line_env 1 False 4 long_buffer = Inr bt' \<and> fst bt' = [1, 2, 3]"
  by (simp add: Update_defs fixture_defs)

subsection \<open>Update: the horizon\<close>

text \<open>
  Unless the junction extension has run in this tick, the buffer that Update leaves
  reaches beyond the horizon squared that the code computes.
\<close>

lemma Update_horizon_exceeded:
  assumes "Update w i s = Some (Inr s')"
    and "vehicle_id_list w ! i \<in> vehicles_at_junction s
         \<or> vehicle_id_list w ! i \<notin> vehicles_at_junction s'"
  shows "\<exists>buf. buffer_map s' (vehicle_id_list w ! i) = Some buf \<and> buf \<noteq> []
           \<and> horizon_square w (vehicle_id_list w ! i) < WpDistanceSquared w (last buf) (hd buf)"
proof -
  define a where "a = vehicle_id_list w ! i"
  define s0 where "s0 = (if buffer_map s a = None then s\<lparr>buffer_map := (buffer_map s)(a \<mapsto> [])\<rparr> else s)"
  from assms(1) obtain jn bt1 s2 rp bt3 s4 where
    lc: "lane_change_phase w a (GetLocation w a) (Length (GetVelocity w a)) (store_buffer a bt1 s0)
       = Some (Inr s2)"
    and po: "populate w a (horizon_square w a) (rand_pos s2) (waypoint_buffer a s2) = Some (Inr (rp, bt3))"
    and jp: "junction_phase w a i jn (store_buffer a bt3 (s2\<lparr>rand_pos := rp\<rparr>)) = Some (Inr s4)"
    and s': "s' = s4\<lparr>track_traffic := UpdateGridPosition w a (fst (waypoint_buffer a s4)) (track_traffic s4)\<rparr>"
    unfolding a_def s0_def by (rule Update_phases)
  from lane_change_phase_frame [OF lc] have v2: "vehicles_at_junction s2 = vehicles_at_junction s"
    by (simp add: store_buffer_def s0_def)
  from populate_result [OF po] have b3: "fst bt3 \<noteq> []"
    "horizon_square w a < WpDistanceSquared w (last (fst bt3)) (hd (fst bt3))" by simp_all
  from junction_phase_cases [OF jp] assms(2) v2 s'
  have "buffer_map s4 = buffer_map (store_buffer a bt3 (s2\<lparr>rand_pos := rp\<rparr>))"
    by (auto simp: store_buffer_def a_def)
  with s' b3 show ?thesis
    by (auto simp: store_buffer_def a_def)
qed

text \<open>
  The buffer that the first phases hand on is not empty, and it is within the horizon
  unless the actor is at a junction entrance.
\<close>

lemma prepare_buffer_shape:
  assumes p: "prepare_buffer w a loc heading hsq bt = Inr (jn, bt1)"
    and self: "\<forall>x. WpDistanceSquared w x x \<le> hsq"
  shows "fst bt1 \<noteq> [] \<and> (jn \<or> WpDistanceSquared w (last (fst bt1)) (hd (fst bt1)) \<le> hsq)"
proof -
  from p obtain bt0 bt2 where
    pb: "purge_buffer w a loc heading hsq bt0 = Inr (jn, bt2)"
    and sb: "seed_buffer w a loc bt2 = Inr bt1"
    by (auto simp: prepare_buffer_def split: sum.splits)
  have shape: "jn \<or> fst bt2 = [] \<or> WpDistanceSquared w (last (fst bt2)) (hd (fst bt2)) \<le> hsq"
  proof (cases "fst bt0 = []")
    case True
    with pb show ?thesis by (simp add: purge_buffer_def)
  next
    case False
    with pb obtain bt' where "purge_far w a jn hsq bt' = Inr bt2"
      by (auto simp: purge_buffer_def split: sum.splits)
    then show ?thesis by (rule purge_far_result)
  qed
  show ?thesis
  proof (cases "fst bt2 = []")
    case True
    with sb obtain c where "fst bt1 = [c]"
      by (auto simp: seed_buffer_def PushWaypoint_def Let_def split: option.splits)
    with self show ?thesis by simp
  next
    case False
    with sb have "bt1 = bt2" by (simp add: seed_buffer_def)
    with False shape show ?thesis by simp
  qed
qed

text \<open>A lane change leaves the buffer as it is or replaces it by one waypoint.\<close>

lemma replace_buffer_single:
  "replace_buffer a loc c s = Inr s' \<Longrightarrow> buffer_map s' a = Some [c]"
  by (cases "buffer_map s a")
     (auto simp: replace_buffer_def waypoint_buffer_def store_buffer_def Let_def pop_times_all
        PushWaypoint_def)

lemma lane_change_phase_buffer:
  assumes "lane_change_phase w a loc v s = Some (Inr s')"
  shows "buffer_map s' a = buffer_map s a \<or> (\<exists>c. buffer_map s' a = Some [c])"
proof -
  obtain force dir rp where req: "lane_change_request w a (rand_pos s) = (force, dir, rp)"
    by (cases "lane_change_request w a (rand_pos s)") auto
  define s1 where "s1 = s\<lparr>rand_pos := rp\<rparr>"
  have s1: "buffer_map s1 = buffer_map s" by (simp add: s1_def)
  show ?thesis
  proof (cases "AssignLaneChange w s1 a loc v force dir")
    case None
    with assms req s1 show ?thesis
      by (auto simp: lane_change_phase_def then_do_def Let_def s1_def [symmetric]
          split: list.splits if_splits)
  next
    case (Some r)
    show ?thesis
    proof (cases r)
      case (Inl e)
      with Some assms req s1 show ?thesis
        by (auto simp: lane_change_phase_def then_do_def Let_def s1_def [symmetric]
            split: list.splits if_splits)
    next
      case (Inr p)
      obtain cop s2 where p: "p = (cop, s2)" by (cases p)
      with Some Inr have "s2 = s1" by (auto dest: AssignLaneChange_state)
      with Some Inr p assms req s1 show ?thesis
        by (auto simp: lane_change_phase_def then_do_def Let_def s1_def [symmetric]
            split: list.splits if_splits option.splits dest: replace_buffer_single)
    qed
  qed
qed

text \<open>
  The populating loop returns the buffer it was given, or a buffer whose waypoints before
  the last one are within the horizon: the loop condition held before the last push.
\<close>

lemma populate_shape:
  assumes r: "populate w a hsq rp bt = Some (Inr (rp', bt'))"
  shows "fst bt' = fst bt
         \<or> (\<exists>pre x. fst bt' = pre @ [x] \<and> pre \<noteq> []
               \<and> WpDistanceSquared w (last pre) (hd pre) \<le> hsq)"
proof -
  have "\<forall>rp' bt'. y = Inr (rp', bt') \<longrightarrow>
          fst bt' = fst bt
          \<or> (\<exists>pre x. fst bt' = pre @ [x] \<and> pre \<noteq> []
                \<and> WpDistanceSquared w (last pre) (hd pre) \<le> hsq)"
    if "populate w a hsq rp bt = Some y" for y
  proof (rule populate.raw_induct
      [where P = "\<lambda>w a hsq rp bt y. \<forall>rp' bt'. y = Inr (rp', bt') \<longrightarrow>
          fst bt' = fst bt
          \<or> (\<exists>pre x. fst bt' = pre @ [x] \<and> pre \<noteq> []
                \<and> WpDistanceSquared w (last pre) (hd pre) \<le> hsq)", OF _ that],
      goal_cases)
    case (1 f w a hsq rp bt y)
    show ?case
    proof (cases "fst bt \<noteq> [] \<and> WpDistanceSquared w (last (fst bt)) (hd (fst bt)) \<le> hsq")
      case False
      with 1(2) show ?thesis by (auto split: if_splits)
    next
      case True
      show ?thesis
      proof (cases "select_next w rp (GetNextWaypoint w (last (fst bt)))")
        case (Inl e)
        with True 1(2) show ?thesis by auto
      next
        case (Inr p)
        obtain nw rp1 where p: "p = (nw, rp1)" by (cases p)
        show ?thesis
        proof (cases "PushWaypoint a bt nw")
          case (Inl e)
          with True Inr p 1(2) show ?thesis by auto
        next
          case bt1: (Inr bt1)
          from bt1 obtain x where x: "fst bt1 = fst bt @ [x]"
            by (auto simp: PushWaypoint_def split: option.splits)
          from bt1 True Inr p 1(2) have "f w a hsq rp1 bt1 = Some y" by simp
          from 1(1) [OF this] x True show ?thesis by auto
        qed
      qed
    qed
  qed
  with r show ?thesis by blast
qed

text \<open>
  Claim C1, as the code has it. The bound holds for the buffer without its back waypoint.
  After Update completes for a tick, the actor is in the junction-tracking set (it is
  marked as being at a junction entrance), or its buffer is a non-empty buffer \<open>pre\<close>
  followed by one more waypoint, and the squared distance from the back of \<open>pre\<close> to the
  front waypoint is at most the horizon squared, as lines 32-36 compute it in \<^verbatim>\<open>float\<close>
  from the speed. The populating loop pushes the one waypoint that takes the buffer
  beyond the horizon. This needs that the squared distance of a waypoint to itself is at
  most the horizon squared.
\<close>

theorem Update_within_horizon:
  assumes "Update w i s = Some (Inr s')"
    and "\<forall>x. WpDistanceSquared w x x \<le> horizon_square w (vehicle_id_list w ! i)"
  shows "vehicle_id_list w ! i \<in> vehicles_at_junction s'
         \<or> (\<exists>pre x. buffer_map s' (vehicle_id_list w ! i) = Some (pre @ [x]) \<and> pre \<noteq> []
               \<and> WpDistanceSquared w (last pre) (hd pre)
                   \<le> horizon_square w (vehicle_id_list w ! i))"
proof -
  define a where "a = vehicle_id_list w ! i"
  define hsq where "hsq = horizon_square w a"
  define s0 where "s0 = (if buffer_map s a = None then s\<lparr>buffer_map := (buffer_map s)(a \<mapsto> [])\<rparr> else s)"
  from assms(1) obtain jn bt1 s2 rp bt3 s4 where
    pr: "prepare_buffer w a (GetLocation w a) (GetHeading w a) hsq (waypoint_buffer a s0)
       = Inr (jn, bt1)"
    and lc: "lane_change_phase w a (GetLocation w a) (Length (GetVelocity w a)) (store_buffer a bt1 s0)
       = Some (Inr s2)"
    and po: "populate w a hsq (rand_pos s2) (waypoint_buffer a s2) = Some (Inr (rp, bt3))"
    and jp: "junction_phase w a i jn (store_buffer a bt3 (s2\<lparr>rand_pos := rp\<rparr>)) = Some (Inr s4)"
    and s': "s' = s4\<lparr>track_traffic := UpdateGridPosition w a (fst (waypoint_buffer a s4)) (track_traffic s4)\<rparr>"
    unfolding a_def s0_def hsq_def by (rule Update_phases)
  from assms(2) have self: "\<forall>x. WpDistanceSquared w x x \<le> hsq"
    by (simp add: hsq_def a_def)
  show ?thesis
  proof (cases jn)
    case True
    with junction_phase_cases [OF jp] have "a \<in> vehicles_at_junction s4" by auto
    with s' show ?thesis by (simp add: a_def)
  next
    case False
    with prepare_buffer_shape [OF pr self]
    have b1: "fst bt1 \<noteq> []" "WpDistanceSquared w (last (fst bt1)) (hd (fst bt1)) \<le> hsq"
      by simp_all
    from lane_change_phase_buffer [OF lc]
    have "fst (waypoint_buffer a s2) = fst bt1 \<or> (\<exists>c. fst (waypoint_buffer a s2) = [c])"
      by (auto simp: store_buffer_def waypoint_buffer_def)
    with b1 self have b2: "WpDistanceSquared w (last (fst (waypoint_buffer a s2)))
        (hd (fst (waypoint_buffer a s2))) \<le> hsq"
      by auto
    from populate_result [OF po]
    have "hsq < WpDistanceSquared w (last (fst bt3)) (hd (fst bt3))" by simp
    with b2 have "fst bt3 \<noteq> fst (waypoint_buffer a s2)" by auto
    with populate_shape [OF po] obtain pre x where
      b3: "fst bt3 = pre @ [x]" "pre \<noteq> []" "WpDistanceSquared w (last pre) (hd pre) \<le> hsq"
      by auto
    from junction_phase_cases [OF jp] False
    have "buffer_map s4 = buffer_map (store_buffer a bt3 (s2\<lparr>rand_pos := rp\<rparr>))"
      by auto
    with s' b3 have "buffer_map s' a = Some (pre @ [x])"
      by (simp add: store_buffer_def)
    with b3 show ?thesis unfolding a_def hsq_def by blast
  qed
qed

theorem Update_within_horizon_witness:
  "(\<forall>x. WpDistanceSquared line_env x x \<le> horizon_square line_env (vehicle_id_list line_env ! 0))
   \<and> (\<exists>s'. Update line_env 0 fresh_stage = Some (Inr s')
         \<and> vehicle_id_list line_env ! 0 \<notin> vehicles_at_junction s'
         \<and> buffer_map s' (vehicle_id_list line_env ! 0) = Some ([1, 2, 3] @ [4])
         \<and> WpDistanceSquared line_env (last [1, 2, 3]) (hd [1, 2, 3])
             \<le> horizon_square line_env (vehicle_id_list line_env ! 0)
         \<and> (\<exists>pre x. buffer_map s' (vehicle_id_list line_env ! 0) = Some (pre @ [x])
               \<and> pre \<noteq> []
               \<and> WpDistanceSquared line_env (last pre) (hd pre)
                   \<le> horizon_square line_env (vehicle_id_list line_env ! 0)))"
proof -
  have self: "\<forall>x. WpDistanceSquared line_env x x
      \<le> horizon_square line_env (vehicle_id_list line_env ! 0)"
    by (simp add: line_env_def horizon_square_def SQUARE_def)
  from line_env_run obtain s' where
    u: "Update line_env 0 fresh_stage = Some (Inr s')" "vehicles_at_junction s' = {}"
      "buffer_map s' 1 = Some [1, 2, 3, 4]" by blast
  have a: "vehicle_id_list line_env ! 0 = 1" by (simp add: line_env_def)
  have d: "WpDistanceSquared line_env (last [1, 2, 3]) (hd [1, 2, 3])
      \<le> horizon_square line_env (vehicle_id_list line_env ! 0)"
    by (simp add: line_env_def horizon_square_def SQUARE_def)
  from Update_within_horizon [OF u(1) self] u a self d show ?thesis
    by auto
qed

text \<open>
  The claim as the spec words it fails: on the straight road the actor is not at a
  junction entrance, and its buffer after the update reaches from waypoint 1 to
  waypoint 4, at a squared distance of 9 over a horizon squared of 4.
\<close>

theorem horizon_exceeded_counterexample:
  "map_option (map_sum id snapshot) (Update line_env 0 fresh_stage)
     = Some (Inr (Some [1, 2, 3, 4], {}, [no_output]))
   \<and> \<not> (WpDistanceSquared line_env 4 1 \<le> horizon_square line_env 1
         \<or> is_at_junction_entrance no_output)"
  by (simp add: Update_defs fixture_defs)

subsection \<open>Update: the search for the safe point\<close>

text \<open>
  Claim C2, as the code has it. The search has no bound on its extension steps and no
  degraded output. When the chain of first successors of the last scanned waypoint leaves
  the junction after \<open>n\<close> steps, at the waypoint \<open>e\<close>, and reaches its first safe point \<open>p\<close>
  (farther than the safe distance from \<open>e\<close>, or a branch, or a junction waypoint) after
  \<open>m\<close> more steps, the extension returns after exactly \<open>n + m\<close> pushes, however many these
  are, with \<open>e\<close> as junction end and \<open>p\<close> as safe point.
\<close>

theorem junction_extension_unbounded:
  assumes "\<not> safe_point_found st" and "\<not> past_junction st" and "current_waypoint st = Some c"
    and "0 < n" and "nth_next w c n = Some e" and "\<not> CheckJunction w e"
    and "\<forall>k. 0 < k \<and> k < n \<longrightarrow> (\<exists>x. nth_next w c k = Some x \<and> CheckJunction w x)"
    and "nth_next w e m = Some p"
    and "\<forall>k<m. \<exists>x. nth_next w e k = Some x
           \<and> \<not> (SQUARE (SAFE_DISTANCE_AFTER_JUNCTION w) < WpDistanceSquared w e x
                \<or> 1 < length (GetNextWaypoint w x) \<or> CheckJunction w x)"
    and "SQUARE (SAFE_DISTANCE_AFTER_JUNCTION w) < WpDistanceSquared w e p
           \<or> 1 < length (GetNextWaypoint w p) \<or> CheckJunction w p"
  shows "\<exists>st' bt'. extend_past_junction w a st bt = Some (Inr (st', bt'))
           \<and> junction_end st' = Some e \<and> safe_point_after_junction st' = Some p
           \<and> length (fst bt') = length (fst bt) + n + m"
proof -
  from leave_junction_chain [OF assms(4,5,6,7), of a bt]
  obtain bt1 where 1: "leave_junction w a c bt = Some (Inr (e, bt1))"
    "length (fst bt1) = length (fst bt) + n" by blast
  from find_safe_point_chain [OF assms(8,9,10), of a bt1]
  obtain bt2 where 2: "find_safe_point w a e e bt1 = Some (Inr (p, bt2))"
    "length (fst bt2) = length (fst bt1) + m" by blast
  from assms(1,2,3) 1 2 show ?thesis
    by (simp add: extend_past_junction_def then_do_def)
qed

theorem junction_extension_unbounded_witness:
  "\<exists>st' bt'. extend_past_junction crossing_env 1 scan_at_2 short_buffer = Some (Inr (st', bt'))
     \<and> junction_end st' = Some 5 \<and> safe_point_after_junction st' = Some 7
     \<and> length (fst bt') = length (fst short_buffer) + 3 + 2
     \<and> nth_next crossing_env 2 3 = Some 5 \<and> nth_next crossing_env 5 2 = Some 7"
proof -
  have st: "\<not> safe_point_found scan_at_2" "\<not> past_junction scan_at_2"
    "current_waypoint scan_at_2 = Some 2"
    by (simp_all add: scan_at_2_def)
  have n: "(0::nat) < 3" "nth_next crossing_env 2 3 = Some 5" "\<not> CheckJunction crossing_env 5"
    by (simp_all add: crossing_env_def line_env_def eval_nat_numeral)
  have inside: "\<forall>k. 0 < k \<and> k < 3 \<longrightarrow>
      (\<exists>x. nth_next crossing_env 2 k = Some x \<and> CheckJunction crossing_env x)"
  proof (intro allI impI)
    fix k :: nat assume "0 < k \<and> k < 3"
    then have "k = 1 \<or> k = 2" by arith
    then show "\<exists>x. nth_next crossing_env 2 k = Some x \<and> CheckJunction crossing_env x"
      by (auto simp: crossing_env_def line_env_def eval_nat_numeral)
  qed
  have m: "nth_next crossing_env 5 2 = Some 7"
    by (simp add: crossing_env_def line_env_def eval_nat_numeral)
  have before: "\<forall>k<2. \<exists>x. nth_next crossing_env 5 k = Some x
      \<and> \<not> (SQUARE (SAFE_DISTANCE_AFTER_JUNCTION crossing_env) < WpDistanceSquared crossing_env 5 x
           \<or> 1 < length (GetNextWaypoint crossing_env x) \<or> CheckJunction crossing_env x)"
    by (simp add: crossing_env_def line_env_def SQUARE_def All_less_Suc eval_nat_numeral)
  have safe: "SQUARE (SAFE_DISTANCE_AFTER_JUNCTION crossing_env) < WpDistanceSquared crossing_env 5 7
      \<or> 1 < length (GetNextWaypoint crossing_env 7) \<or> CheckJunction crossing_env 7"
    by (simp add: crossing_env_def line_env_def SQUARE_def)
  from junction_extension_unbounded [OF st n inside m before safe, of 1 short_buffer] n m
  show ?thesis by simp
qed

text \<open>
  The claim as the spec words it fails: on the roundabout the first successors never lead
  out of the junction, and Update does not return.
\<close>

theorem safe_point_search_diverges_counterexample:
  "Update roundabout_env 0 (fresh_stage\<lparr>buffer_map := [1 \<mapsto> [1, 2]]\<rparr>) = None"
  apply (simp add: Update_defs fixture_defs populate.simps)
  apply (subst leave_junction_diverges [where J = "\<lambda>x. 2 \<le> x"])
    apply simp_all
  done

subsection \<open>Update: the successors of the back of the buffer\<close>

text \<open>
  Claim C3. The claim fails on the code: on the road that ends at waypoint 2, the
  populating loop reads element 0 of an empty vector of successors with \<^verbatim>\<open>at\<close>, and
  Update ends with the exception instead of leaving the buffer as it is.
\<close>

theorem Update_dead_end_crashes:
  "Update dead_end_env 0 fresh_stage = Some (Inl OutOfRange)"
  by (simp add: Update_defs fixture_defs)

subsection \<open>Update: the output frame\<close>

text \<open>
  Claim C4, as the code has it. Update writes the output record of the actor only when
  the actor enters or leaves the junction-tracking set: on entering, the record gets the
  flag true with a junction end and a safe point; on leaving, the flag false with junction
  end and safe point none. In every other tick the record of the actor is what the
  earlier tick left in the frame.
\<close>

theorem Update_output:
  assumes "Update w i s = Some (Inr s')"
  shows "(let a = vehicle_id_list w ! i
          in if a \<notin> vehicles_at_junction s \<and> a \<in> vehicles_at_junction s'
             then \<exists>e p. output_array s' = (output_array s)
                    [i := \<lparr>is_at_junction_entrance = True, junction_end_point = Some e,
                           safe_point = Some p\<rparr>]
             else if a \<in> vehicles_at_junction s \<and> a \<notin> vehicles_at_junction s'
             then output_array s' = (output_array s)
                    [i := \<lparr>is_at_junction_entrance = False, junction_end_point = None,
                           safe_point = None\<rparr>]
             else output_array s' = output_array s)"
proof -
  define a where "a = vehicle_id_list w ! i"
  define s0 where "s0 = (if buffer_map s a = None then s\<lparr>buffer_map := (buffer_map s)(a \<mapsto> [])\<rparr> else s)"
  from assms(1) obtain jn bt1 s2 rp bt3 s4 where
    lc: "lane_change_phase w a (GetLocation w a) (Length (GetVelocity w a)) (store_buffer a bt1 s0)
       = Some (Inr s2)"
    and jp: "junction_phase w a i jn (store_buffer a bt3 (s2\<lparr>rand_pos := rp\<rparr>)) = Some (Inr s4)"
    and s': "s' = s4\<lparr>track_traffic := UpdateGridPosition w a (fst (waypoint_buffer a s4)) (track_traffic s4)\<rparr>"
    unfolding a_def s0_def by (rule Update_phases)
  from lane_change_phase_frame [OF lc] have v2: "vehicles_at_junction s2 = vehicles_at_junction s"
    "output_array s2 = output_array s"
    by (simp_all add: store_buffer_def s0_def)
  from junction_phase_cases [OF jp] v2 s' show ?thesis
    unfolding Let_def a_def [symmetric]
    by (auto simp: store_buffer_def)
qed

theorem Update_output_witness:
  "\<exists>s'. Update crossing_env 0 crossing_stage = Some (Inr s')
     \<and> vehicle_id_list crossing_env ! 0 \<notin> vehicles_at_junction crossing_stage
     \<and> vehicle_id_list crossing_env ! 0 \<in> vehicles_at_junction s'
     \<and> (\<exists>e p. output_array s' = (output_array crossing_stage)
            [0 := \<lparr>is_at_junction_entrance = True, junction_end_point = Some e,
                   safe_point = Some p\<rparr>])"
proof -
  from crossing_env_run obtain s' where
    u: "Update crossing_env 0 crossing_stage = Some (Inr s')" "vehicles_at_junction s' = {1}"
    by blast
  have a: "vehicle_id_list crossing_env ! 0 = 1"
    "vehicle_id_list crossing_env ! 0 \<notin> vehicles_at_junction crossing_stage"
    by (simp_all add: crossing_env_def line_env_def crossing_stage_def fresh_stage_def)
  from Update_output [OF u(1)] u a show ?thesis
    by (auto simp: Let_def)
qed

text \<open>
  The claim as the spec words it fails: on the straight road, where the actor is at no
  junction, the output after the update is the output before it, whatever that was.
\<close>

theorem output_carried_over_counterexample:
  "map_option (map_sum id output_array) (Update line_env 0 fresh_stage) = Some (Inr [no_output])
   \<and> map_option (map_sum id output_array)
        (Update line_env 0 (fresh_stage\<lparr>output_array := [stale_output]\<rparr>))
      = Some (Inr [stale_output])
   \<and> stale_output \<noteq> no_output"
  by (simp add: Update_defs fixture_defs)

subsection \<open>Update: the stale buffer\<close>

text \<open>
  Claim C7. For a non-empty buffer whose front waypoint is farther from the actor than
  the start distance, the first loop pops every waypoint and takes the actor out of the
  cell of each of them; the purge is skipped on the empty buffer; and the buffer is seeded
  with the waypoint of the vicinity lookup or, when that gives none, with the waypoint of
  the guaranteed lookup, whose cell the actor is put into. The actor is not at a junction
  entrance then.
\<close>

theorem stale_buffer_rebuilt:
  assumes "fst bt \<noteq> []"
    and "DistanceSquared (WpLocation w (hd (fst bt))) loc > SQUARE (MAX_START_DISTANCE w)"
  shows "clear_stale w a loc bt = Inr ([], fold (\<lambda>x. RemovePassingVehicle x a) (fst bt) (snd bt))
    \<and> prepare_buffer w a loc heading hsq bt =
       (let closest = (case GetWaypointInVicinity w loc of
                         None \<Rightarrow> GetWaypoint w loc | Some c \<Rightarrow> c)
        in Inr (False, [closest],
                UpdatePassingVehicle closest a
                  (fold (\<lambda>x. RemovePassingVehicle x a) (fst bt) (snd bt))))"
proof -
  obtain buf tt where bt: "bt = (buf, tt)" by (cases bt)
  with assms have c: "clear_stale w a loc bt = Inr ([], fold (\<lambda>x. RemovePassingVehicle x a) buf tt)"
    by (simp add: clear_stale_def pop_times_all)
  then show ?thesis
    by (simp add: prepare_buffer_def purge_buffer_def seed_buffer_def PushWaypoint_def bt Let_def
        split: option.splits)
qed

theorem stale_buffer_rebuilt_witness:
  "fst (waypoint_buffer 1 far_stage) = [7, 8] \<and>
   DistanceSquared (WpLocation line_env 7) (GetLocation line_env 1) > SQUARE (MAX_START_DISTANCE line_env) \<and>
   map_sum id (\<lambda>r. (fst r, fst (snd r), map (waypoint_occupied (snd (snd r))) [1, 7, 8]))
     (prepare_buffer line_env 1 (GetLocation line_env 1) (GetHeading line_env 1)
        (horizon_square line_env 1) (waypoint_buffer 1 far_stage))
     = Inr (False, [1], [{1}, {}, {}])"
proof -
  have b: "fst (waypoint_buffer 1 far_stage) \<noteq> []"
    by (simp add: waypoint_buffer_def far_stage_def fixture_defs)
  have d: "DistanceSquared (WpLocation line_env (hd (fst (waypoint_buffer 1 far_stage))))
             (GetLocation line_env 1) > SQUARE (MAX_START_DISTANCE line_env)"
    by (simp add: waypoint_buffer_def far_stage_def fixture_defs SQUARE_def)
  from stale_buffer_rebuilt [OF b d, of 1 "GetHeading line_env 1" "horizon_square line_env 1"]
  show ?thesis
    by (simp add: waypoint_buffer_def far_stage_def fixture_defs SQUARE_def
        UpdatePassingVehicle_def RemovePassingVehicle_def)
qed

subsection \<open>Update: the empty buffer\<close>

text \<open>
  Whenever Update returns, the buffer of the actor is not empty: the populating loop
  returns a buffer that is not empty, and the junction extension only appends.
\<close>

lemma leave_junction_nonempty:
  assumes r: "leave_junction w a c bt = Some (Inr (n, bt'))"
  shows "fst bt' \<noteq> []"
proof -
  have "\<forall>n bt'. y = Inr (n, bt') \<longrightarrow> fst bt' \<noteq> []"
    if "leave_junction w a c bt = Some y" for y
  proof (rule leave_junction.raw_induct
      [where P = "\<lambda>w a c bt y. \<forall>n bt'. y = Inr (n, bt') \<longrightarrow> fst bt' \<noteq> []", OF _ that],
      goal_cases)
    case (1 f w a c bt y)
    show ?case
    proof (cases "GetNextWaypoint w c = []")
      case True
      with 1(2) show ?thesis by auto
    next
      case False
      show ?thesis
      proof (cases "hd (GetNextWaypoint w c)")
        case None
        with False 1(2) show ?thesis by (auto simp: PushWaypoint_def)
      next
        case (Some x)
        show ?thesis
        proof (cases "CheckJunction w x")
          case True
          with False Some 1(2)
          have "f w a x (fst bt @ [x], UpdatePassingVehicle x a (snd bt)) = Some y"
            by (simp add: PushWaypoint_def)
          then show ?thesis by (rule 1(1))
        next
          case no: False
          with False Some 1(2) show ?thesis by (auto simp: PushWaypoint_def)
        qed
      qed
    qed
  qed
  with r show ?thesis by blast
qed

lemma find_safe_point_nonempty:
  assumes r: "find_safe_point w a j c bt = Some (Inr (p, bt'))" and ne: "fst bt \<noteq> []"
  shows "fst bt' \<noteq> []"
proof -
  have "fst bt \<noteq> [] \<longrightarrow> (\<forall>p bt'. y = Inr (p, bt') \<longrightarrow> fst bt' \<noteq> [])"
    if "find_safe_point w a j c bt = Some y" for y
  proof (rule find_safe_point.raw_induct
      [where P = "\<lambda>w a j c bt y. fst bt \<noteq> [] \<longrightarrow> (\<forall>p bt'. y = Inr (p, bt') \<longrightarrow> fst bt' \<noteq> [])",
        OF _ that], goal_cases)
    case (1 f w a j c bt y)
    show ?case
    proof (cases "WpDistanceSquared w j c > SQUARE (SAFE_DISTANCE_AFTER_JUNCTION w)
         \<or> length (GetNextWaypoint w c) > 1 \<or> CheckJunction w c")
      case True
      with 1(2) show ?thesis by auto
    next
      case stop: False
      show ?thesis
      proof (cases "GetNextWaypoint w c = []")
        case True
        with stop 1(2) show ?thesis by auto
      next
        case False
        show ?thesis
        proof (cases "hd (GetNextWaypoint w c)")
          case None
          with stop False 1(2) show ?thesis by (auto simp: PushWaypoint_def)
        next
          case (Some x)
          with stop False 1(2)
          have "f w a j x (fst bt @ [x], UpdatePassingVehicle x a (snd bt)) = Some y"
            by (simp add: PushWaypoint_def)
          from 1(1) [OF this] show ?thesis by simp
        qed
      qed
    qed
  qed
  with r ne show ?thesis by blast
qed

lemma extend_past_junction_nonempty:
  assumes "extend_past_junction w a st bt = Some (Inr (st', bt'))" and "fst bt \<noteq> []"
  shows "fst bt' \<noteq> []"
  using assms
  by (auto simp: extend_past_junction_def then_do_def
      split: if_splits option.splits sum.splits prod.splits
      dest: leave_junction_nonempty find_safe_point_nonempty)

lemma junction_phase_nonempty:
  assumes "junction_phase w a i jn s = Some (Inr s')"
    and "buffer_map s a = Some buf" and "buf \<noteq> []"
  shows "\<exists>buf'. buffer_map s' a = Some buf' \<and> buf' \<noteq> []"
proof (cases "jn \<and> a \<notin> vehicles_at_junction s")
  case True
  define s1 where "s1 = s\<lparr>vehicles_at_junction := insert a (vehicles_at_junction s)\<rparr>"
  from assms True obtain st st' bt' d where
    ex: "extend_past_junction w a st (waypoint_buffer a s1) = Some (Inr (st', bt'))"
    and wr: "write_output i d (store_buffer a bt' s1) = Inr s'"
    by (auto simp: junction_phase_def then_do_def Let_def s1_def
        split: sum.splits option.splits)
  from assms(2,3) have "fst (waypoint_buffer a s1) \<noteq> []"
    by (simp add: waypoint_buffer_def s1_def)
  from extend_past_junction_nonempty [OF ex this] wr show ?thesis
    by (auto simp: write_output_def store_buffer_def split: if_splits)
next
  case False
  with assms show ?thesis
    by (auto simp: junction_phase_def write_output_def split: if_splits)
qed

lemma Update_buffer_nonempty:
  assumes "Update w i s = Some (Inr s')"
  shows "\<exists>buf. buffer_map s' (vehicle_id_list w ! i) = Some buf \<and> buf \<noteq> []"
proof -
  define a where "a = vehicle_id_list w ! i"
  define s0 where "s0 = (if buffer_map s a = None then s\<lparr>buffer_map := (buffer_map s)(a \<mapsto> [])\<rparr> else s)"
  from assms(1) obtain jn bt1 s2 rp bt3 s4 where
    po: "populate w a (horizon_square w a) (rand_pos s2) (waypoint_buffer a s2) = Some (Inr (rp, bt3))"
    and jp: "junction_phase w a i jn (store_buffer a bt3 (s2\<lparr>rand_pos := rp\<rparr>)) = Some (Inr s4)"
    and s': "s' = s4\<lparr>track_traffic := UpdateGridPosition w a (fst (waypoint_buffer a s4)) (track_traffic s4)\<rparr>"
    unfolding a_def s0_def by (rule Update_phases)
  from populate_result [OF po] have b3: "fst bt3 \<noteq> []" by simp
  have "buffer_map (store_buffer a bt3 (s2\<lparr>rand_pos := rp\<rparr>)) a = Some (fst bt3)"
    by (simp add: store_buffer_def)
  from junction_phase_nonempty [OF jp this b3] s' show ?thesis
    by (auto simp: a_def)
qed

text \<open>
  Claim C10. The claim fails on the code where the purge of the passed waypoints empties
  the buffer: for an actor standing on the only waypoint of its buffer, the
  junction-entrance test reads the front of the empty buffer before the buffer is seeded
  again, and Update does not return. (Where Update returns, the buffer is not empty, and
  a buffer emptied by the discard of a stale path is seeded again.)
\<close>

theorem Update_passed_all_crashes:
  "Update line_env 0 (fresh_stage\<lparr>buffer_map := [1 \<mapsto> [0]]\<rparr>) = Some (Inl EmptyContainer)"
  by (simp add: Update_defs fixture_defs)


end
